theory Spec2Isabelle
  imports Complex_Main "HOL-Library.Sublist"
begin

section \<open>Data model (app/database.py)\<close>

text \<open>
  The engine under study is \<^verbatim>\<open>NotificationService\<close> of
  \<^verbatim>\<open>app/services/notification_service.py\<close>, with the rows of
  \<^verbatim>\<open>app/database.py\<close> it reads and writes and the
  \<^verbatim>\<open>PrayerService.get_prayer_times\<close> it calls.

  Conventions of the embedding.
  \<^item> A naive \<^verbatim>\<open>datetime\<close> is an \<open>int\<close>: microseconds since the epoch. A
    \<^verbatim>\<open>timedelta\<close> is an \<open>int\<close> of microseconds (its exact internal value).
  \<^item> \<^verbatim>\<open>timedelta.total_seconds()\<close> and the division by 60 are floating point in
    Python; they are taken as exact rational arithmetic here. On the inputs used in the
    closed theorems below (whole multiples of half a minute) the floating-point values are
    exact as well.
  \<^item> A nullable Boolean column is a \<open>bool\<close> (Python's \<^verbatim>\<open>None\<close> is falsy, like
    \<^verbatim>\<open>False\<close>); a nullable column that is tested for truthiness and then used is
    an \<open>option\<close>.
  \<^item> The ISO date string \<^verbatim>\<open>now.date().isoformat()\<close> is represented by the
    day number of \<open>now\<close> (a bijection on valid dates).
  \<^item> An exception is the string \<^verbatim>\<open>str(e)\<close>; only subclasses of
    \<^verbatim>\<open>Exception\<close> are modelled.
  \<^item> Functions keep their Python names without the leading underscore; a loop is the
    function named after what it iterates over, with the suffix \<open>_loop\<close>.
\<close>

type_synonym exn = string

record user =
  user_id :: string
  prayer_region :: "string option"
  notifications_enabled :: bool
  prayer_notifications_enabled :: bool
  blocked_bot :: bool
  blocked_at :: "int option"

record task =
  task_id :: nat
  task_user_id :: string
  name :: string
  category :: "string option"
  priority :: string
  due_date :: "int option"
  completed :: bool
  notification_1day_sent :: bool
  notification_1hour_sent :: bool
  notification_15min_sent :: bool
  notification_due_sent :: bool

record prayer_notification =
  pn_user_id :: string
  pn_date :: int
  prayer_name :: string
  notification_type :: string

record interval =
  interval_id :: string
  interval_name :: string
  minutes :: int

text \<open>\<^verbatim>\<open>self.task_intervals\<close> and \<^verbatim>\<open>self.prayer_intervals\<close> of \<^verbatim>\<open>__init__\<close>.\<close>

definition task_intervals :: "interval list" where
  "task_intervals =
    [\<lparr>interval_id = ''1day'', interval_name = ''1 kun oldin'', minutes = 24 * 60\<rparr>,
     \<lparr>interval_id = ''1hour'', interval_name = ''1 soat oldin'', minutes = 60\<rparr>,
     \<lparr>interval_id = ''15min'', interval_name = ''15 daqiqa oldin'', minutes = 15\<rparr>,
     \<lparr>interval_id = ''due'', interval_name = ''Vaqti keldi'', minutes = 0\<rparr>]"

definition prayer_intervals :: "interval list" where
  "prayer_intervals =
    [\<lparr>interval_id = ''15min'', interval_name = ''15 daqiqa oldin'', minutes = 15\<rparr>,
     \<lparr>interval_id = ''5min'', interval_name = ''5 daqiqa oldin'', minutes = 5\<rparr>]"

section \<open>Threshold evaluation\<close>

text \<open>
  \<^verbatim>\<open>int(time_diff.total_seconds() / 60)\<close>: Python's \<^verbatim>\<open>int\<close> of a float drops the
  fractional part, that is, it rounds toward zero.
\<close>

definition total_seconds :: "int \<Rightarrow> rat" where
  "total_seconds td = of_int td / 1000000"

definition py_int :: "rat \<Rightarrow> int" where
  "py_int x = (if 0 \<le> x then \<lfloor>x\<rfloor> else \<lceil>x\<rceil>)"

definition minutes_until :: "int \<Rightarrow> int \<Rightarrow> int" where
  "minutes_until event_time now = py_int (total_seconds (event_time - now) / 60)"

text \<open>
  \<^verbatim>\<open>getattr(task, f"notification_{interval['id']}_sent", False)\<close> and the matching
  \<^verbatim>\<open>setattr(task, ..., True)\<close>. An identifier that names no column reads as the
  default \<^verbatim>\<open>False\<close>; writing it would only create an attribute on the Python
  object, which the record does not have.
\<close>

definition get_sent :: "task \<Rightarrow> string \<Rightarrow> bool" where
  "get_sent t i =
    (if i = ''1day'' then notification_1day_sent t
     else if i = ''1hour'' then notification_1hour_sent t
     else if i = ''15min'' then notification_15min_sent t
     else if i = ''due'' then notification_due_sent t
     else False)"

definition set_sent :: "string \<Rightarrow> task \<Rightarrow> task" where
  "set_sent i t =
    (if i = ''1day'' then t\<lparr>notification_1day_sent := True\<rparr>
     else if i = ''1hour'' then t\<lparr>notification_1hour_sent := True\<rparr>
     else if i = ''15min'' then t\<lparr>notification_15min_sent := True\<rparr>
     else if i = ''due'' then t\<lparr>notification_due_sent := True\<rparr>
     else t)"

definition should_send_task_notification :: "task \<Rightarrow> interval \<Rightarrow> int \<Rightarrow> bool" where
  "should_send_task_notification t iv minutes_until_due =
    (let target_minutes = minutes iv;
         is_time_for_notification =
           (minutes_until_due \<le> target_minutes \<and> minutes_until_due > target_minutes - 5)
     in if \<not> is_time_for_notification then False
        else \<not> get_sent t (interval_id iv))"

section \<open>Blocked-user classification\<close>

text \<open>
  \<^verbatim>\<open>str(error).lower()\<close> on the ASCII letters, and \<^verbatim>\<open>indicator in error_message\<close>
  as the contiguous-sublist test.
\<close>

definition lower_char :: "char \<Rightarrow> char" where
  "lower_char c =
    (let n = (of_char c :: nat) in if 65 \<le> n \<and> n \<le> 90 then char_of (n + 32) else c)"

definition lower :: "string \<Rightarrow> string" where
  "lower s = map lower_char s"

definition blocked_indicators :: "string list" where
  "blocked_indicators =
    [''bot was blocked by the user'',
     ''user is deactivated'',
     ''chat not found'',
     ''bot is not a member'']"

definition is_user_blocked_error :: "exn \<Rightarrow> bool" where
  "is_user_blocked_error error =
    (let error_message = lower error
     in list_ex (\<lambda>indicator. sublist indicator error_message) blocked_indicators)"

section \<open>Environment and world\<close>

text \<open>
  What the engine cannot decide is supplied by an environment: the outcome of each database
  statement, of each \<^verbatim>\<open>bot.send_message\<close> call, of each HTTP request of the prayer
  service, and the clock. Every outward call advances the counter \<open>ticks\<close>, and the
  environment is asked at the current tick, so two calls with the same arguments may end
  differently.

  The world holds the three tables, and the observable effects as traces: every call of
  \<^verbatim>\<open>send_message\<close> (\<open>attempts\<close>), those that returned (\<open>delivered\<close>), and
  the log.
\<close>

datatype message =
    TaskNotification task interval int
  | PrayerReminder string string interval string

datatype response = HttpFailure exn | JsonBody "(string \<times> string) list option"

datatype log_event =
    Checking int
  | SentTotal nat
  | CheckError exn
  | TaskSent string string string
  | TaskSendFailed string exn
  | UserMarkedBlocked string
  | PrayerSent string string int
  | PrayerSendFailed string exn
  | PrayerCheckError string exn
  | PrayerFetched string
  | PrayerNoTimes
  | PrayerFetchFailed string exn

record env =
  db_fault :: "nat \<Rightarrow> exn option"
  bot_send :: "nat \<Rightarrow> string \<Rightarrow> message \<Rightarrow> exn option"
  http_get :: "nat \<Rightarrow> string \<Rightarrow> response"
  utcnow :: "nat \<Rightarrow> int"

record world =
  users :: "user list"
  tasks :: "task list"
  prayer_notifications :: "prayer_notification list"
  ticks :: nat
  attempts :: "(string \<times> message) list"
  delivered :: "(string \<times> message) list"
  logged :: "log_event list"

definition tick :: "world \<Rightarrow> world" where
  "tick w = w\<lparr>ticks := Suc (ticks w)\<rparr>"

definition log_event :: "log_event \<Rightarrow> world \<Rightarrow> world" where
  "log_event ev w = w\<lparr>logged := logged w @ [ev]\<rparr>"

text \<open>
  \<^verbatim>\<open>await bot.send_message(chat_id=user.id, text=message, ...)\<close>. The text and the
  keyboard are functions of the arguments kept in the \<open>message\<close>.
\<close>

definition send_message :: "env \<Rightarrow> string \<Rightarrow> message \<Rightarrow> world \<Rightarrow> exn option \<times> world" where
  "send_message env chat_id msg w =
    (let w1 = (tick w)\<lparr>attempts := attempts w @ [(chat_id, msg)]\<rparr>
     in case bot_send env (ticks w) chat_id msg of
          Some e \<Rightarrow> (Some e, w1)
        | None \<Rightarrow> (None, w1\<lparr>delivered := delivered w1 @ [(chat_id, msg)]\<rparr>))"

text \<open>
  \<^verbatim>\<open>Session.add(obj)\<close> works in memory and raises
  \<^verbatim>\<open>InvalidRequestError\<close> when \<open>obj\<close> is attached to another session. No
  statement reaches the database.
\<close>

definition session_add :: "bool \<Rightarrow> exn option" where
  "session_add attached_elsewhere =
    (if attached_elsewhere
     then Some ''Object <Task> is already attached to session 1 (this is 2)''
     else None)"

text \<open>
  \<^verbatim>\<open>_mark_task_notification_sent\<close>: in a session of its own, the attribute is set on
  the object in memory, the object is added to the session, and the session is committed.
  \<open>attached_elsewhere\<close> says whether the task object belongs to another open session. The
  returned task is the object in memory, which carries the flag also when the call raised.
\<close>

definition mark_task_notification_sent ::
  "env \<Rightarrow> bool \<Rightarrow> task \<Rightarrow> interval \<Rightarrow> world \<Rightarrow> exn option \<times> task \<times> world" where
  "mark_task_notification_sent env attached_elsewhere t iv w =
    (let t' = set_sent (interval_id iv) t
     in case session_add attached_elsewhere of
          Some e \<Rightarrow> (Some e, t', w)
        | None \<Rightarrow>
            (case db_fault env (ticks w) of
               Some e \<Rightarrow> (Some e, t', tick w)
             | None \<Rightarrow>
                 (None, t',
                  (tick w)\<lparr>tasks :=
                    map (\<lambda>r. if task_id r = task_id t then set_sent (interval_id iv) r else r)
                      (tasks w)\<rparr>)))"

definition record_prayer_notification ::
  "env \<Rightarrow> string \<Rightarrow> int \<Rightarrow> string \<Rightarrow> string \<Rightarrow> world \<Rightarrow> exn option \<times> world" where
  "record_prayer_notification env uid date prayer ntype w =
    (let notification =
           \<lparr>pn_user_id = uid, pn_date = date, prayer_name = prayer, notification_type = ntype\<rparr>
     in case db_fault env (ticks w) of
          Some e \<Rightarrow> (Some e, tick w)
        | None \<Rightarrow>
            (None, (tick w)\<lparr>prayer_notifications := prayer_notifications w @ [notification]\<rparr>))"

text \<open>\<^verbatim>\<open>Result.scalar_one_or_none()\<close> raises when more than one row matches.\<close>

definition scalar_one_or_none :: "'a list \<Rightarrow> exn + 'a option" where
  "scalar_one_or_none rows =
    (case rows of
       [] \<Rightarrow> Inr None
     | [r] \<Rightarrow> Inr (Some r)
     | _ \<Rightarrow> Inl ''Multiple rows were found when one or none was required'')"

definition block_row :: "int \<Rightarrow> user \<Rightarrow> user" where
  "block_row stamp u =
    u\<lparr>blocked_bot := True, blocked_at := Some stamp,
      notifications_enabled := False, prayer_notifications_enabled := False\<rparr>"

definition mark_user_as_blocked :: "env \<Rightarrow> string \<Rightarrow> world \<Rightarrow> exn option \<times> world" where
  "mark_user_as_blocked env uid w =
    (case db_fault env (ticks w) of
       Some e \<Rightarrow> (Some e, tick w)
     | None \<Rightarrow>
         (let w1 = tick w
          in case scalar_one_or_none (filter (\<lambda>r. user_id r = uid) (users w1)) of
               Inl e \<Rightarrow> (Some e, w1)
             | Inr None \<Rightarrow> (None, w1)
             | Inr (Some _) \<Rightarrow>
                 (let stamp = utcnow env (ticks w1)
                  in case db_fault env (ticks w1) of
                       Some e \<Rightarrow> (Some e, tick w1)
                     | None \<Rightarrow>
                         (None,
                          log_event (UserMarkedBlocked uid)
                            ((tick w1)\<lparr>users :=
                               map (\<lambda>r. if user_id r = uid then block_row stamp r else r)
                                 (users w1)\<rparr>)))))"

section \<open>Task notifications of one user\<close>

text \<open>
  The body of \<^verbatim>\<open>if await self._should_send_task_notification(...)\<close>: the
  \<^verbatim>\<open>try\<close> block and its \<^verbatim>\<open>except Exception\<close> handler. The handler itself
  may raise (from \<^verbatim>\<open>_mark_user_as_blocked\<close>); that exception leaves the function.
  Results are \<open>(raised, task object, notifications_sent, world)\<close>.

  The task objects of the loop were loaded by the session that
  \<^verbatim>\<open>_check_task_notifications\<close> opens with \<^verbatim>\<open>async with\<close>, and the loop runs
  inside that block: whenever \<^verbatim>\<open>_mark_task_notification_sent\<close> is called, the task
  is attached to that open session. So the second argument of
  \<open>mark_task_notification_sent\<close> is \<open>True\<close> here, its \<^verbatim>\<open>session.add(task)\<close>
  raises, and the \<^verbatim>\<open>except\<close> of the \<^verbatim>\<open>try\<close> block takes over.
\<close>

definition task_send_failed ::
  "env \<Rightarrow> user \<Rightarrow> exn \<Rightarrow> task \<Rightarrow> nat \<Rightarrow> world \<Rightarrow> exn option \<times> task \<times> nat \<times> world" where
  "task_send_failed env u e t n w =
    (if is_user_blocked_error e then
       (case mark_user_as_blocked env (user_id u) w of (r, w') \<Rightarrow> (r, t, n, w'))
     else (None, t, n, log_event (TaskSendFailed (user_id u) e) w))"

definition try_send_task ::
  "env \<Rightarrow> user \<Rightarrow> int \<Rightarrow> interval \<Rightarrow> task \<Rightarrow> nat \<Rightarrow> world
     \<Rightarrow> exn option \<times> task \<times> nat \<times> world" where
  "try_send_task env u m iv t n w =
    (case send_message env (user_id u) (TaskNotification t iv m) w of
       (Some e, w1) \<Rightarrow> task_send_failed env u e t n w1
     | (None, w1) \<Rightarrow>
         (case mark_task_notification_sent env True t iv w1 of
            (Some e, t', w2) \<Rightarrow> task_send_failed env u e t' n w2
          | (None, t', w2) \<Rightarrow>
              (None, t', n + 1,
               log_event (TaskSent (user_id u) (name t') (interval_name iv)) w2)))"

fun task_intervals_loop ::
  "env \<Rightarrow> user \<Rightarrow> int \<Rightarrow> interval list \<Rightarrow> task \<Rightarrow> nat \<Rightarrow> world
     \<Rightarrow> exn option \<times> task \<times> nat \<times> world" where
  "task_intervals_loop env u m [] t n w = (None, t, n, w)"
| "task_intervals_loop env u m (iv # ivs) t n w =
    (if should_send_task_notification t iv m then
       (case try_send_task env u m iv t n w of
          (Some e, t', n', w') \<Rightarrow> (Some e, t', n', w')
        | (None, t', n', w') \<Rightarrow> task_intervals_loop env u m ivs t' n' w')
     else task_intervals_loop env u m ivs t n w)"

fun tasks_loop ::
  "env \<Rightarrow> user \<Rightarrow> int \<Rightarrow> task list \<Rightarrow> nat \<Rightarrow> world \<Rightarrow> exn option \<times> nat \<times> world" where
  "tasks_loop env u now [] n w = (None, n, w)"
| "tasks_loop env u now (t # ts) n w =
    (case due_date t of
       None \<Rightarrow> tasks_loop env u now ts n w
     | Some due \<Rightarrow>
         (case task_intervals_loop env u (minutes_until due now) task_intervals t n w of
            (Some e, _, n', w') \<Rightarrow> (Some e, n', w')
          | (None, _, n', w') \<Rightarrow> tasks_loop env u now ts n' w'))"

definition check_task_notifications ::
  "env \<Rightarrow> user \<Rightarrow> int \<Rightarrow> world \<Rightarrow> (exn + nat) \<times> world" where
  "check_task_notifications env u now w =
    (if \<not> notifications_enabled u then (Inr 0, w)
     else
       (case db_fault env (ticks w) of
          Some e \<Rightarrow> (Inl e, tick w)
        | None \<Rightarrow>
            (let w1 = tick w;
                 ts = filter (\<lambda>t. task_user_id t = user_id u \<and> \<not> completed t) (tasks w1)
             in case tasks_loop env u now ts 0 w1 of
                  (Some e, _, w') \<Rightarrow> (Inl e, w')
                | (None, n, w') \<Rightarrow> (Inr n, w'))))"

section \<open>Prayer times (app/services/prayer_service.py)\<close>

text \<open>
  \<^verbatim>\<open>PrayerService.get_prayer_times\<close>. The HTTP request, the status check and the JSON
  decoding are one outward call; \<open>HttpFailure\<close> is any exception they raise,
  \<open>JsonBody None\<close> a body without \<^verbatim>\<open>"times"\<close>, \<open>JsonBody (Some ts)\<close> a body
  whose \<^verbatim>\<open>"times"\<close> object is \<open>ts\<close>, its values being strings. A key missing from
  \<open>ts\<close> raises \<^verbatim>\<open>KeyError\<close> inside the \<^verbatim>\<open>try\<close>.
\<close>

definition key_error :: "string \<Rightarrow> exn" where
  "key_error k = [CHR 0x27] @ k @ [CHR 0x27]"

definition lookup_times :: "(string \<times> string) list \<Rightarrow> exn + (string \<times> string) list" where
  "lookup_times ts =
    (case map_of ts ''tong_saharlik'' of None \<Rightarrow> Inl (key_error ''tong_saharlik'') | Some fajr \<Rightarrow>
     case map_of ts ''peshin'' of None \<Rightarrow> Inl (key_error ''peshin'') | Some dhuhr \<Rightarrow>
     case map_of ts ''asr'' of None \<Rightarrow> Inl (key_error ''asr'') | Some asr \<Rightarrow>
     case map_of ts ''shom_iftor'' of None \<Rightarrow> Inl (key_error ''shom_iftor'') | Some maghrib \<Rightarrow>
     case map_of ts ''hufton'' of None \<Rightarrow> Inl (key_error ''hufton'') | Some isha \<Rightarrow>
       Inr [(''Fajr'', fajr), (''Dhuhr'', dhuhr), (''Asr'', asr),
            (''Maghrib'', maghrib), (''Isha'', isha)])"

definition get_prayer_times ::
  "env \<Rightarrow> string \<Rightarrow> world \<Rightarrow> (string \<times> string) list option \<times> world" where
  "get_prayer_times env region w =
    (let w1 = tick w
     in case http_get env (ticks w) region of
          HttpFailure e \<Rightarrow> (None, log_event (PrayerFetchFailed region e) w1)
        | JsonBody None \<Rightarrow> (None, log_event PrayerNoTimes w1)
        | JsonBody (Some ts) \<Rightarrow>
            (case lookup_times ts of
               Inl e \<Rightarrow> (None, log_event (PrayerFetchFailed region e) w1)
             | Inr prayer_times \<Rightarrow> (Some prayer_times, log_event (PrayerFetched region) w1)))"

section \<open>Parsing a prayer time\<close>

text \<open>
  \<^verbatim>\<open>hours, minutes = map(int, time_str.split(':'))\<close> followed by
  \<^verbatim>\<open>base_date.replace(hour=hours, minute=minutes, second=0, microsecond=0)\<close>; any
  exception gives \<^verbatim>\<open>base_date\<close> back. \<^verbatim>\<open>int\<close> of a string is modelled on
  ASCII: surrounding whitespace (tab, line feed, vertical tab, form feed, carriage return,
  space), an optional sign, and decimal digits in groups joined by single underscores.
\<close>

fun split_on :: "char \<Rightarrow> string \<Rightarrow> string list" where
  "split_on c [] = [[]]"
| "split_on c (x # xs) =
    (if x = c then [] # split_on c xs
     else (case split_on c xs of [] \<Rightarrow> [[x]] | y # ys \<Rightarrow> (x # y) # ys))"

definition is_space :: "char \<Rightarrow> bool" where
  "is_space c = (let n = (of_char c :: nat) in (9 \<le> n \<and> n \<le> 13) \<or> n = 32)"

definition is_digit :: "char \<Rightarrow> bool" where
  "is_digit c = (let n = (of_char c :: nat) in 48 \<le> n \<and> n \<le> 57)"

definition strip :: "string \<Rightarrow> string" where
  "strip s = rev (dropWhile is_space (rev (dropWhile is_space s)))"

definition parse_digits :: "string \<Rightarrow> int option" where
  "parse_digits s =
    (let groups = split_on (CHR ''_'') s
     in if list_all (\<lambda>g. g \<noteq> [] \<and> list_all is_digit g) groups
        then Some (foldl (\<lambda>a c. 10 * a + (int (of_char c) - 48)) 0 (concat groups))
        else None)"

definition int_of_string :: "string \<Rightarrow> int option" where
  "int_of_string s =
    (case strip s of
       [] \<Rightarrow> None
     | c # r \<Rightarrow>
         if c = CHR ''+'' then parse_digits r
         else if c = CHR ''-'' then map_option uminus (parse_digits r)
         else parse_digits (c # r))"

definition day_us :: int where
  "day_us = 86400000000"

definition parse_prayer_time :: "string \<Rightarrow> int \<Rightarrow> int" where
  "parse_prayer_time time_str base_date =
    (case map int_of_string (split_on (CHR '':'') time_str) of
       [Some hours, Some mins] \<Rightarrow>
         if 0 \<le> hours \<and> hours \<le> 23 \<and> 0 \<le> mins \<and> mins \<le> 59
         then (base_date div day_us) * day_us + (hours * 3600 + mins * 60) * 1000000
         else base_date
     | _ \<Rightarrow> base_date)"

section \<open>Prayer notifications of one user\<close>

definition should_send_prayer_notification ::
  "env \<Rightarrow> user \<Rightarrow> string \<Rightarrow> interval \<Rightarrow> int \<Rightarrow> int \<Rightarrow> world \<Rightarrow> (exn + bool) \<times> world" where
  "should_send_prayer_notification env u prayer iv minutes_until_prayer today w =
    (let target_minutes = minutes iv;
         is_time_for_notification =
           (minutes_until_prayer \<le> target_minutes \<and> minutes_until_prayer > target_minutes - 2)
     in if \<not> is_time_for_notification then (Inr False, w)
        else
          (case db_fault env (ticks w) of
             Some e \<Rightarrow> (Inl e, tick w)
           | None \<Rightarrow>
               (case scalar_one_or_none
                       (filter (\<lambda>r. pn_user_id r = user_id u \<and> pn_date r = today \<and>
                                     prayer_name r = prayer \<and>
                                     notification_type r = interval_id iv)
                          (prayer_notifications w)) of
                  Inl e \<Rightarrow> (Inl e, tick w)
                | Inr existing \<Rightarrow> (Inr (existing = None), tick w))))"

definition prayer_send_failed ::
  "env \<Rightarrow> user \<Rightarrow> exn \<Rightarrow> nat \<Rightarrow> world \<Rightarrow> exn option \<times> nat \<times> world" where
  "prayer_send_failed env u e n w =
    (if is_user_blocked_error e then
       (case mark_user_as_blocked env (user_id u) w of (r, w') \<Rightarrow> (r, n, w'))
     else (None, n, log_event (PrayerSendFailed (user_id u) e) w))"

definition try_send_prayer ::
  "env \<Rightarrow> user \<Rightarrow> string \<Rightarrow> string \<Rightarrow> string \<Rightarrow> int \<Rightarrow> interval \<Rightarrow> nat \<Rightarrow> world
     \<Rightarrow> exn option \<times> nat \<times> world" where
  "try_send_prayer env u region prayer prayer_time_str today iv n w =
    (case send_message env (user_id u) (PrayerReminder prayer prayer_time_str iv region) w of
       (Some e, w1) \<Rightarrow> prayer_send_failed env u e n w1
     | (None, w1) \<Rightarrow>
         (case record_prayer_notification env (user_id u) today prayer (interval_id iv) w1 of
            (Some e, w2) \<Rightarrow> prayer_send_failed env u e n w2
          | (None, w2) \<Rightarrow>
              (None, n + 1, log_event (PrayerSent (user_id u) prayer (minutes iv)) w2)))"

fun prayer_intervals_loop ::
  "env \<Rightarrow> user \<Rightarrow> string \<Rightarrow> string \<Rightarrow> string \<Rightarrow> int \<Rightarrow> int \<Rightarrow> interval list \<Rightarrow> nat \<Rightarrow> world
     \<Rightarrow> exn option \<times> nat \<times> world" where
  "prayer_intervals_loop env u region prayer pts today m [] n w = (None, n, w)"
| "prayer_intervals_loop env u region prayer pts today m (iv # ivs) n w =
    (case should_send_prayer_notification env u prayer iv m today w of
       (Inl e, w1) \<Rightarrow> (Some e, n, w1)
     | (Inr False, w1) \<Rightarrow> prayer_intervals_loop env u region prayer pts today m ivs n w1
     | (Inr True, w1) \<Rightarrow>
         (case try_send_prayer env u region prayer pts today iv n w1 of
            (Some e, n', w2) \<Rightarrow> (Some e, n', w2)
          | (None, n', w2) \<Rightarrow> prayer_intervals_loop env u region prayer pts today m ivs n' w2))"

definition falsy :: "string option \<Rightarrow> bool" where
  "falsy s = (s = None \<or> s = Some [])"

fun prayers_loop ::
  "env \<Rightarrow> user \<Rightarrow> string \<Rightarrow> int \<Rightarrow> int \<Rightarrow> (string \<times> string) list \<Rightarrow> string list \<Rightarrow> nat \<Rightarrow> world
     \<Rightarrow> exn option \<times> nat \<times> world" where
  "prayers_loop env u region now today prayer_times [] n w = (None, n, w)"
| "prayers_loop env u region now today prayer_times (prayer # ps) n w =
    (let prayer_time_str = map_of prayer_times prayer
     in if falsy prayer_time_str then prayers_loop env u region now today prayer_times ps n w
        else
          (let pts = the prayer_time_str;
               prayer_time = parse_prayer_time pts now;
               minutes_until_prayer = minutes_until prayer_time now
           in case prayer_intervals_loop env u region prayer pts today minutes_until_prayer
                     prayer_intervals n w of
                (Some e, n', w') \<Rightarrow> (Some e, n', w')
              | (None, n', w') \<Rightarrow> prayers_loop env u region now today prayer_times ps n' w'))"

definition prayers :: "string list" where
  "prayers = [''Fajr'', ''Dhuhr'', ''Asr'', ''Maghrib'', ''Isha'']"

definition check_prayer_notifications :: "env \<Rightarrow> user \<Rightarrow> int \<Rightarrow> world \<Rightarrow> nat \<times> world" where
  "check_prayer_notifications env u now w =
    (if \<not> prayer_notifications_enabled u \<or> falsy (prayer_region u) then (0, w)
     else
       (let region = the (prayer_region u);
            today = now div day_us
        in case get_prayer_times env region w of
             (None, w1) \<Rightarrow> (0, w1)
           | (Some prayer_times, w1) \<Rightarrow>
               if prayer_times = [] then (0, w1)
               else
                 (case prayers_loop env u region now today prayer_times prayers 0 w1 of
                    (Some e, n, w2) \<Rightarrow> (n, log_event (PrayerCheckError (user_id u) e) w2)
                  | (None, n, w2) \<Rightarrow> (n, w2))))"

section \<open>The sweep\<close>

text \<open>
  \<^verbatim>\<open>check_notifications\<close>: one \<^verbatim>\<open>try\<close> around the query of the active users and
  the loop over them. An exception that leaves \<^verbatim>\<open>_check_task_notifications\<close> ends the
  loop and is logged by the \<^verbatim>\<open>except Exception\<close> of the sweep.
\<close>

fun users_loop :: "env \<Rightarrow> int \<Rightarrow> user list \<Rightarrow> nat \<Rightarrow> world \<Rightarrow> exn option \<times> nat \<times> world" where
  "users_loop env now [] total_n w = (None, total_n, w)"
| "users_loop env now (u # us) total_n w =
    (case check_task_notifications env u now w of
       (Inl e, w1) \<Rightarrow> (Some e, total_n, w1)
     | (Inr task_n, w1) \<Rightarrow>
         (case check_prayer_notifications env u now w1 of
            (prayer_n, w2) \<Rightarrow>
              users_loop env now us (total_n + task_n + prayer_n) w2))"

definition check_notifications :: "env \<Rightarrow> world \<Rightarrow> world" where
  "check_notifications env w =
    (let now = utcnow env (ticks w);
         w0 = log_event (Checking now) w
     in case db_fault env (ticks w0) of
          Some e \<Rightarrow> log_event (CheckError e) (tick w0)
        | None \<Rightarrow>
            (let w1 = tick w0;
                 active = filter (\<lambda>u. blocked_bot u = False) (users w1)
             in case users_loop env now active 0 w1 of
                  (Some e, _, w2) \<Rightarrow> log_event (CheckError e) w2
                | (None, total_notifications, w2) \<Rightarrow>
                    if total_notifications > 0
                    then log_event (SentTotal total_notifications) w2
                    else w2))"

text \<open>A sequence of sweeps, one after the other.\<close>

fun sweeps :: "env \<Rightarrow> nat \<Rightarrow> world \<Rightarrow> world" where
  "sweeps env 0 w = w"
| "sweeps env (Suc k) w = sweeps env k (check_notifications env w)"

section \<open>Starting and stopping the service\<close>

text \<open>
  The scheduler is the library's \<^verbatim>\<open>AsyncIOScheduler\<close> with its in-memory job store.
  It is kept as: whether it is running, the identifiers in its job store, the identifiers
  added while it was stopped (they enter the store when it starts), and the number of
  shutdowns queued on the event loop.
  \<^item> \<^verbatim>\<open>add_job\<close> on a running scheduler puts the job into the store and raises
    \<^verbatim>\<open>ConflictingIdError\<close> when the identifier is there already; on a stopped
    scheduler the job waits for the start.
  \<^item> \<^verbatim>\<open>start\<close> raises \<^verbatim>\<open>SchedulerAlreadyRunningError\<close> on a running scheduler;
    otherwise it moves the waiting jobs into the store, one by one, and runs.
  \<^item> \<^verbatim>\<open>shutdown\<close> of the asyncio scheduler does not stop it: it hands the shutdown
    to the event loop with \<^verbatim>\<open>call_soon_threadsafe\<close> and returns. The event loop runs
    it only after the running coroutine has given control back.
\<close>

record scheduler_state =
  running :: bool
  job_store :: "string list"
  pending_jobs :: "string list"
  queued_shutdowns :: nat

definition conflicting_id :: "string \<Rightarrow> exn" where
  "conflicting_id job_id = ''Job identifier ('' @ job_id @ '') conflicts with an existing job''"

definition add_job :: "string \<Rightarrow> scheduler_state \<Rightarrow> exn + scheduler_state" where
  "add_job job_id sch =
    (if running sch then
       (if job_id \<in> set (job_store sch) then Inl (conflicting_id job_id)
        else Inr (sch\<lparr>job_store := job_store sch @ [job_id]\<rparr>))
     else Inr (sch\<lparr>pending_jobs := pending_jobs sch @ [job_id]\<rparr>))"

fun add_pending :: "string list \<Rightarrow> string list \<Rightarrow> exn option \<times> string list" where
  "add_pending store [] = (None, store)"
| "add_pending store (job_id # rest) =
    (if job_id \<in> set store then (Some (conflicting_id job_id), store)
     else add_pending (store @ [job_id]) rest)"

definition scheduler_start :: "scheduler_state \<Rightarrow> exn option \<times> scheduler_state" where
  "scheduler_start sch =
    (if running sch then (Some ''Scheduler is already running'', sch)
     else
       (case add_pending (job_store sch) (pending_jobs sch) of
          (Some e, store) \<Rightarrow> (Some e, sch\<lparr>job_store := store\<rparr>)
        | (None, store) \<Rightarrow>
            (None, sch\<lparr>job_store := store, pending_jobs := [], running := True\<rparr>)))"

definition shutdown :: "scheduler_state \<Rightarrow> scheduler_state" where
  "shutdown sch = sch\<lparr>queued_shutdowns := Suc (queued_shutdowns sch)\<rparr>"

text \<open>
  The service object: its flag \<^verbatim>\<open>is_running\<close>, the scheduler it owns, and what it
  logged. \<^verbatim>\<open>start\<close> may raise, from \<^verbatim>\<open>add_job\<close> or from the scheduler's
  \<^verbatim>\<open>start\<close>; the flag is set only after both returned. \<^verbatim>\<open>stop\<close> has no
  \<^verbatim>\<open>await\<close>: when it returns, the shutdown it asked for is still queued.
\<close>

datatype service_log = AlreadyRunning | Starting | Started | Stopping | Stopped

record service =
  is_running :: bool
  scheduler :: scheduler_state
  service_logged :: "service_log list"

definition start :: "service \<Rightarrow> exn option \<times> service" where
  "start s =
    (if is_running s then (None, s\<lparr>service_logged := service_logged s @ [AlreadyRunning]\<rparr>)
     else
       (let s1 = s\<lparr>service_logged := service_logged s @ [Starting]\<rparr>
        in case add_job ''notification_check'' (scheduler s1) of
             Inl e \<Rightarrow> (Some e, s1)
           | Inr sch1 \<Rightarrow>
               (case scheduler_start sch1 of
                  (Some e, sch2) \<Rightarrow> (Some e, s1\<lparr>scheduler := sch2\<rparr>)
                | (None, sch2) \<Rightarrow>
                    (None,
                     s1\<lparr>scheduler := sch2, is_running := True,
                        service_logged := service_logged s1 @ [Started]\<rparr>))))"

definition stop :: "service \<Rightarrow> service" where
  "stop s =
    (if \<not> is_running s then s
     else
       s\<lparr>service_logged := service_logged s @ [Stopping, Stopped],
         scheduler := shutdown (scheduler s),
         is_running := False\<rparr>)"

section \<open>Sample data\<close>

text \<open>
  A provider answer, an environment in which every outward call succeeds, and a store with
  two users who each own one task due at 05:44, seen at 04:46.
\<close>

definition sample_times :: "(string \<times> string) list" where
  "sample_times =
    [(''tong_saharlik'', ''05:00''), (''peshin'', ''12:30''), (''asr'', ''16:00''),
     (''shom_iftor'', ''18:00''), (''hufton'', ''19:30'')]"

definition env_ok :: env where
  "env_ok =
    \<lparr>db_fault = (\<lambda>_. None), bot_send = (\<lambda>_ _ _. None),
     http_get = (\<lambda>_ _. JsonBody (Some sample_times)),
     utcnow = (\<lambda>_. 17160000000)\<rparr>"

definition sample_user :: "string \<Rightarrow> user" where
  "sample_user i =
    \<lparr>user_id = i, prayer_region = Some ''Toshkent'', notifications_enabled = True,
     prayer_notifications_enabled = True, blocked_bot = False, blocked_at = None\<rparr>"

definition sample_task :: "nat \<Rightarrow> string \<Rightarrow> int option \<Rightarrow> task" where
  "sample_task i u d =
    \<lparr>task_id = i, task_user_id = u, name = ''report'', category = None, priority = ''high'',
     due_date = d, completed = False, notification_1day_sent = False,
     notification_1hour_sent = False, notification_15min_sent = False,
     notification_due_sent = False\<rparr>"

definition world0 :: world where
  "world0 =
    \<lparr>users = [sample_user ''100'', sample_user ''200''],
     tasks = [sample_task 1 ''100'' (Some 20640000000), sample_task 2 ''200'' (Some 20640000000)],
     prayer_notifications = [], ticks = 0, attempts = [], delivered = [], logged = []\<rparr>"

text \<open>The service as \<^verbatim>\<open>__init__\<close> leaves it.\<close>

definition new_service :: service where
  "new_service =
    \<lparr>is_running = False,
     scheduler = \<lparr>running = False, job_store = [], pending_jobs = [], queued_shutdowns = 0\<rparr>,
     service_logged = []\<rparr>"

text \<open>The same environment with the prayer-time provider out of reach.\<close>

definition env_down :: env where
  "env_down = env_ok\<lparr>http_get := (\<lambda>_ _. HttpFailure ''timed out'')\<rparr>"

text \<open>
  Delivery to user 100 is refused with the platform's "blocked" error; every other call
  succeeds.
\<close>

definition env_blocked :: env where
  "env_blocked =
    env_ok\<lparr>bot_send :=
      (\<lambda>_ chat_id _. if chat_id = ''100''
         then Some ''Forbidden: bot was blocked by the user'' else None)\<rparr>"

text \<open>The database fails on the second statement of the run: the task query of the first user.\<close>

definition env_db_fault :: env where
  "env_db_fault = env_ok\<lparr>db_fault := (\<lambda>k. if k = 1 then Some ''connection lost'' else None)\<rparr>"

text \<open>Every delivery fails with a transient error.\<close>

definition env_send_fails :: env where
  "env_send_fails = env_ok\<lparr>bot_send := (\<lambda>_ _ _. Some ''Timeout'')\<rparr>"

text \<open>The 1-hour flag of a task row.\<close>

definition get_sent_1hour :: "task \<Rightarrow> bool" where
  "get_sent_1hour t = get_sent t ''1hour''"

text \<open>A store whose first task has no due date.\<close>

definition world_undated :: world where
  "world_undated =
    world0\<lparr>tasks := [sample_task 1 ''100'' None, sample_task 2 ''200'' (Some 20640000000)]\<rparr>"

text \<open>A store with one user who owns two tasks, both due at 05:44.\<close>

definition world_two_tasks :: world where
  "world_two_tasks =
    world0\<lparr>users := [sample_user ''100''],
      tasks := [sample_task 1 ''100'' (Some 20640000000),
                sample_task 3 ''100'' (Some 20640000000)]\<rparr>"

text \<open>What a call of \<open>send_message\<close> was about: the addressee, and the task or the prayer.\<close>

definition attempt_kind :: "string \<times> message \<Rightarrow> string \<times> (nat + string)" where
  "attempt_kind x =
    (fst x,
     case snd x of
       TaskNotification t iv m \<Rightarrow> Inl (task_id t)
     | PrayerReminder p pts iv region \<Rightarrow> Inr p)"

text \<open>A task message about a task without a due date; a task message about a given task.\<close>

definition undated :: "string \<times> message \<Rightarrow> bool" where
  "undated x =
    (case snd x of
       TaskNotification t iv m \<Rightarrow> due_date t = None
     | PrayerReminder p pts iv region \<Rightarrow> False)"

definition for_task :: "nat \<Rightarrow> string \<times> message \<Rightarrow> bool" where
  "for_task tid x =
    (case snd x of
       TaskNotification t iv m \<Rightarrow> task_id t = tid
     | PrayerReminder p pts iv region \<Rightarrow> False)"

text \<open>The fresh service after its first start.\<close>

definition started_service :: service where
  "started_service =
    \<lparr>is_running = True,
     scheduler =
       \<lparr>running = True, job_store = [''notification_check''], pending_jobs = [],
        queued_shutdowns = 0\<rparr>,
     service_logged = [Starting, Started]\<rparr>"

section \<open>What a run may change\<close>

text \<open>
  The relation between a world \<open>w0\<close> and a world \<open>w\<close> reached from it by steps of the
  engine, for the addressees \<open>U\<close>. It says what the steps may do and nothing else:
  \<^item> a user row is kept or becomes its blocked version;
  \<^item> the task rows are the same (a sent-flag is set on the task object in memory only);
  \<^item> prayer records are only appended, each with a delivery about it since \<open>w0\<close>;
  \<^item> every call of \<open>send_message\<close> since \<open>w0\<close> is addressed to a member of \<open>U\<close>, and
    a task message is about a task loaded from the store, with a due date, whose flag for
    that threshold was not set;
  \<^item> every delivery since \<open>w0\<close> is such a call that the bot accepted.
\<close>

definition unflag :: "task \<Rightarrow> task" where
  "unflag t =
    t\<lparr>notification_1day_sent := False, notification_1hour_sent := False,
      notification_15min_sent := False, notification_due_sent := False\<rparr>"

definition flags_le :: "task \<Rightarrow> task \<Rightarrow> bool" where
  "flags_le r t =
    ((notification_1day_sent r \<longrightarrow> notification_1day_sent t) \<and>
     (notification_1hour_sent r \<longrightarrow> notification_1hour_sent t) \<and>
     (notification_15min_sent r \<longrightarrow> notification_15min_sent t) \<and>
     (notification_due_sent r \<longrightarrow> notification_due_sent t))"

definition fresh :: "'a list \<Rightarrow> 'a list \<Rightarrow> 'a list" where
  "fresh before after = drop (length before) after"

definition about_task :: "nat \<Rightarrow> string \<Rightarrow> string \<times> message \<Rightarrow> bool" where
  "about_task tid i x =
    (case snd x of
       TaskNotification t iv m \<Rightarrow> task_id t = tid \<and> interval_id iv = i
     | PrayerReminder p pts iv region \<Rightarrow> False)"

definition about_prayer :: "prayer_notification \<Rightarrow> string \<times> message \<Rightarrow> bool" where
  "about_prayer pn x =
    (case snd x of
       TaskNotification t iv m \<Rightarrow> False
     | PrayerReminder p pts iv region \<Rightarrow>
         fst x = pn_user_id pn \<and> p = prayer_name pn \<and> interval_id iv = notification_type pn)"

definition tracked :: "world \<Rightarrow> task \<Rightarrow> bool" where
  "tracked w0 t = (\<exists>r\<in>set (tasks w0). unflag r = unflag t \<and> flags_le r t)"

definition msg_ok :: "world \<Rightarrow> message \<Rightarrow> bool" where
  "msg_ok w0 msg =
    (case msg of
       TaskNotification t iv m \<Rightarrow>
         tracked w0 t \<and> due_date t \<noteq> None \<and> \<not> get_sent t (interval_id iv)
     | PrayerReminder p pts iv region \<Rightarrow> True)"

definition user_rel :: "user \<Rightarrow> user \<Rightarrow> bool" where
  "user_rel r r' = (r' = r \<or> (\<exists>stamp. r' = block_row stamp r))"

definition users_ok :: "world \<Rightarrow> world \<Rightarrow> bool" where
  "users_ok w0 w = list_all2 user_rel (users w0) (users w)"

definition tasks_ok :: "world \<Rightarrow> world \<Rightarrow> bool" where
  "tasks_ok w0 w = (tasks w = tasks w0)"

definition prayers_ok :: "world \<Rightarrow> world \<Rightarrow> bool" where
  "prayers_ok w0 w =
    (prefix (prayer_notifications w0) (prayer_notifications w) \<and>
     (\<forall>pn\<in>set (fresh (prayer_notifications w0) (prayer_notifications w)).
        \<exists>x\<in>set (fresh (delivered w0) (delivered w)). about_prayer pn x))"

definition attempts_ok :: "string set \<Rightarrow> world \<Rightarrow> world \<Rightarrow> bool" where
  "attempts_ok U w0 w =
    (length (attempts w0) \<le> length (attempts w) \<and>
     (\<forall>x\<in>set (fresh (attempts w0) (attempts w)). fst x \<in> U \<and> msg_ok w0 (snd x)))"

definition delivered_ok :: "env \<Rightarrow> string set \<Rightarrow> world \<Rightarrow> world \<Rightarrow> bool" where
  "delivered_ok env U w0 w =
    (length (delivered w0) \<le> length (delivered w) \<and>
     (\<forall>x\<in>set (fresh (delivered w0) (delivered w)).
        fst x \<in> U \<and> msg_ok w0 (snd x) \<and> (\<exists>k. bot_send env k (fst x) (snd x) = None)))"

definition sweep_inv :: "env \<Rightarrow> string set \<Rightarrow> world \<Rightarrow> world \<Rightarrow> bool" where
  "sweep_inv env U w0 w =
    (users_ok w0 w \<and> tasks_ok w0 w \<and> prayers_ok w0 w \<and> attempts_ok U w0 w \<and>
     delivered_ok env U w0 w)"

text \<open>The addressees of a sweep: the users whose \<open>blocked_bot\<close> is false when it starts.\<close>

definition active_ids :: "world \<Rightarrow> string set" where
  "active_ids w = user_id ` {u \<in> set (users w). \<not> blocked_bot u}"

section \<open>Properties of the threshold evaluation\<close>

lemma total_minutes: "total_seconds d / 60 = of_int d / of_int 60000000"
  by (simp add: total_seconds_def)

text \<open>The minutes in integer arithmetic: the quotient of the magnitudes, with the sign.\<close>

lemma minutes_until_div:
  "minutes_until e n = (if n \<le> e then (e - n) div 60000000 else - ((n - e) div 60000000))"
proof -
  have fl: "\<lfloor>(of_int d :: rat) / of_int 60000000\<rfloor> = d div 60000000" for d :: int
    by (rule floor_divide_of_int_eq)
  have ce: "\<lceil>(of_int d :: rat) / of_int 60000000\<rceil> = - ((- d) div 60000000)" for d :: int
  proof -
    have "\<lceil>(of_int d :: rat) / of_int 60000000\<rceil>
        = - \<lfloor>(of_int (- d) :: rat) / of_int 60000000\<rfloor>"
      by (simp add: ceiling_def)
    then show ?thesis by (simp only: fl)
  qed
  have sg: "(0 \<le> (of_int d :: rat) / of_int 60000000) = (0 \<le> d)" for d :: int
    by (simp add: zero_le_divide_iff)
  show ?thesis
    unfolding minutes_until_def py_int_def total_minutes sg fl ce by simp
qed

text \<open>
  C4, as stated: \<open>minutes_until\<close> is the floor of the quotient also for an event in the
  past. It is not: for an event thirty seconds ago the quotient is \<open>-1/2\<close>, its floor is
  \<open>-1\<close>, and the code computes \<open>0\<close>.
\<close>

theorem minutes_until_floor_counterexample:
  "minutes_until 0 30000000 \<noteq> \<lfloor>total_seconds (0 - 30000000) / 60\<rfloor>"
proof -
  have a: "minutes_until 0 30000000 = 0" by (simp add: minutes_until_div)
  have "\<lfloor>total_seconds (0 - 30000000) / 60\<rfloor>
      = \<lfloor>(of_int (- 30000000) :: rat) / of_int 60000000\<rfloor>"
    by (simp add: total_seconds_def)
  also have "\<dots> = (- 30000000) div 60000000" by (rule floor_divide_of_int_eq)
  also have "\<dots> = (- 1 :: int)" by simp
  finally show ?thesis using a by simp
qed

text \<open>
  C4, amended: \<open>minutes_until\<close> is the quotient \<open>(event_time - now).total_seconds() / 60\<close>
  rounded toward zero. It is the floor of the quotient when the event is not earlier than
  \<open>now\<close> and the ceiling when it is earlier; its magnitude is the whole number of minutes
  in the magnitude of the difference.
\<close>

theorem minutes_until_truncates:
  "(now \<le> event_time \<longrightarrow>
      minutes_until event_time now = \<lfloor>total_seconds (event_time - now) / 60\<rfloor>) \<and>
   (event_time < now \<longrightarrow>
      minutes_until event_time now = \<lceil>total_seconds (event_time - now) / 60\<rceil>) \<and>
   \<bar>minutes_until event_time now\<bar> = \<bar>event_time - now\<bar> div 60000000"
proof -
  have sg: "(0 \<le> total_seconds (event_time - now)) = (now \<le> event_time)"
    by (simp add: total_seconds_def zero_le_divide_iff)
  have a: "now \<le> event_time \<longrightarrow>
      minutes_until event_time now = \<lfloor>total_seconds (event_time - now) / 60\<rfloor>"
    by (simp add: minutes_until_def py_int_def sg)
  have b: "event_time < now \<longrightarrow>
      minutes_until event_time now = \<lceil>total_seconds (event_time - now) / 60\<rceil>"
    by (simp add: minutes_until_def py_int_def sg)
  have c: "\<bar>minutes_until event_time now\<bar> = \<bar>event_time - now\<bar> div 60000000"
  proof (cases "now \<le> event_time")
    case True
    then show ?thesis by (simp add: minutes_until_div)
  next
    case False
    then have "0 \<le> (now - event_time) div 60000000" by simp
    with False show ?thesis by (simp add: minutes_until_div abs_if)
  qed
  from a b c show ?thesis by blast
qed

text \<open>
  The amended C4 at an event ninety seconds ahead (one minute) and ninety seconds ago
  (minus one minute, where the floor would be minus two).
\<close>

theorem minutes_until_truncates_witness:
  "(0::int) \<le> 90000000 \<and> minutes_until 90000000 0 = 1 \<and>
   \<lfloor>total_seconds (90000000 - 0) / 60\<rfloor> = 1 \<and>
   (0::int) < 90000000 \<and> minutes_until 0 90000000 = - 1 \<and>
   \<lceil>total_seconds (0 - 90000000) / 60\<rceil> = - 1"
  using minutes_until_truncates [of 0 90000000] minutes_until_truncates [of 90000000 0]
  by (simp add: minutes_until_div)

section \<open>The send decisions\<close>

lemma scalar_one_or_none_cases:
  "scalar_one_or_none xs = Inr None \<and> xs = [] \<or>
   (\<exists>x. scalar_one_or_none xs = Inr (Some x) \<and> xs = [x]) \<or>
   (\<exists>e. scalar_one_or_none xs = Inl e \<and> 2 \<le> length xs)"
  by (simp add: scalar_one_or_none_def split: list.splits)

lemma should_send_prayer_True:
  assumes "db_fault env (ticks w) = None"
  shows "(fst (should_send_prayer_notification env u prayer iv m today w) = Inr True) =
     (\<not> (\<exists>r\<in>set (prayer_notifications w).
            pn_user_id r = user_id u \<and> pn_date r = today \<and> prayer_name r = prayer \<and>
            notification_type r = interval_id iv) \<and>
      minutes iv - 2 < m \<and> m \<le> minutes iv)"
proof -
  let ?rows = "filter (\<lambda>r. pn_user_id r = user_id u \<and> pn_date r = today \<and>
                 prayer_name r = prayer \<and> notification_type r = interval_id iv)
                 (prayer_notifications w)"
  have e: "(?rows = []) = (\<not> (\<exists>r\<in>set (prayer_notifications w).
            pn_user_id r = user_id u \<and> pn_date r = today \<and> prayer_name r = prayer \<and>
            notification_type r = interval_id iv))"
    by (simp add: filter_empty_conv)
  have "(fst (should_send_prayer_notification env u prayer iv m today w) = Inr True) =
     (?rows = [] \<and> minutes iv - 2 < m \<and> m \<le> minutes iv)"
    using assms scalar_one_or_none_cases [of ?rows]
    by (auto simp: should_send_prayer_notification_def Let_def split: sum.splits)
  then show ?thesis by (simp only: e)
qed

text \<open>
  C1: the thresholds are 1440, 60, 15 and 0 minutes for tasks and 15 and 5 minutes for
  prayers. A task threshold \<open>t\<close> fires exactly when its sent-flag is false and
  \<open>t - 5 < minutes_until \<le> t\<close>; a prayer threshold fires exactly when no record of
  that user, day, prayer and threshold exists and \<open>t - 2 < minutes_until \<le> t\<close> (the
  look-up of the record being answered by the database). A task due in 58 minutes fires the
  60-minute threshold, one due in 54 minutes does not.
\<close>

theorem send_decision_window:
  assumes "db_fault env (ticks w) = None"
  shows "map minutes task_intervals = [1440, 60, 15, 0] \<and>
    map minutes prayer_intervals = [15, 5] \<and>
    should_send_task_notification t (task_intervals ! 0) m =
      (\<not> notification_1day_sent t \<and> 1440 - 5 < m \<and> m \<le> 1440) \<and>
    should_send_task_notification t (task_intervals ! 1) m =
      (\<not> notification_1hour_sent t \<and> 60 - 5 < m \<and> m \<le> 60) \<and>
    should_send_task_notification t (task_intervals ! 2) m =
      (\<not> notification_15min_sent t \<and> 15 - 5 < m \<and> m \<le> 15) \<and>
    should_send_task_notification t (task_intervals ! 3) m =
      (\<not> notification_due_sent t \<and> 0 - 5 < m \<and> m \<le> 0) \<and>
    (\<forall>iv\<in>set prayer_intervals.
       (fst (should_send_prayer_notification env u prayer iv m today w) = Inr True) =
       (\<not> (\<exists>r\<in>set (prayer_notifications w).
              pn_user_id r = user_id u \<and> pn_date r = today \<and> prayer_name r = prayer \<and>
              notification_type r = interval_id iv) \<and>
        minutes iv - 2 < m \<and> m \<le> minutes iv)) \<and>
    (\<not> notification_1hour_sent t \<longrightarrow>
       should_send_task_notification t (task_intervals ! 1) 58 \<and>
       \<not> should_send_task_notification t (task_intervals ! 1) 54)"
proof -
  have a: "map minutes task_intervals = [1440, 60, 15, 0]"
    by (simp add: task_intervals_def)
  have b: "map minutes prayer_intervals = [15, 5]"
    by (simp add: prayer_intervals_def)
  have c: "should_send_task_notification t (task_intervals ! 0) m =
      (\<not> notification_1day_sent t \<and> 1440 - 5 < m \<and> m \<le> 1440)"
    by (auto simp: task_intervals_def should_send_task_notification_def get_sent_def)
  have d: "should_send_task_notification t (task_intervals ! 1) m =
      (\<not> notification_1hour_sent t \<and> 60 - 5 < m \<and> m \<le> 60)" for m
    by (auto simp: task_intervals_def should_send_task_notification_def get_sent_def)
  have e: "should_send_task_notification t (task_intervals ! 2) m =
      (\<not> notification_15min_sent t \<and> 15 - 5 < m \<and> m \<le> 15)"
    by (auto simp: task_intervals_def should_send_task_notification_def get_sent_def)
  have f: "should_send_task_notification t (task_intervals ! 3) m =
      (\<not> notification_due_sent t \<and> 0 - 5 < m \<and> m \<le> 0)"
    by (auto simp: task_intervals_def should_send_task_notification_def get_sent_def)
  have g: "\<forall>iv\<in>set prayer_intervals.
       (fst (should_send_prayer_notification env u prayer iv m today w) = Inr True) =
       (\<not> (\<exists>r\<in>set (prayer_notifications w).
              pn_user_id r = user_id u \<and> pn_date r = today \<and> prayer_name r = prayer \<and>
              notification_type r = interval_id iv) \<and>
        minutes iv - 2 < m \<and> m \<le> minutes iv)"
    using should_send_prayer_True [OF assms] by blast
  have h: "\<not> notification_1hour_sent t \<longrightarrow>
       should_send_task_notification t (task_intervals ! 1) 58 \<and>
       \<not> should_send_task_notification t (task_intervals ! 1) 54"
    using d [of 58] d [of 54] by auto
  from a b c d e f g h show ?thesis by blast
qed

text \<open>
  C1 on the sample data: the task thresholds at 58 and 54 minutes, the 15-minute prayer
  threshold at 14 minutes (inside its window) and at 13 minutes (outside).
\<close>

theorem send_decision_window_witness:
  "db_fault env_ok (ticks world0) = None \<and>
   should_send_task_notification (sample_task 1 ''100'' (Some 20640000000)) (task_intervals ! 1) 58 \<and>
   \<not> should_send_task_notification (sample_task 1 ''100'' (Some 20640000000)) (task_intervals ! 1) 54 \<and>
   fst (should_send_prayer_notification env_ok (sample_user ''100'') ''Fajr'' (prayer_intervals ! 0) 14 0 world0) = Inr True \<and>
   fst (should_send_prayer_notification env_ok (sample_user ''100'') ''Fajr'' (prayer_intervals ! 0) 13 0 world0) \<noteq> Inr True"
proof -
  have h: "db_fault env_ok (ticks world0) = None" by (simp add: env_ok_def)
  have i: "prayer_intervals ! 0 \<in> set prayer_intervals" by (simp add: prayer_intervals_def)
  show ?thesis
    using h i
      send_decision_window [OF h, where t = "sample_task 1 ''100'' (Some 20640000000)"
        and m = 14 and u = "sample_user ''100''" and prayer = "''Fajr''" and today = 0]
      send_decision_window [OF h, where t = "sample_task 1 ''100'' (Some 20640000000)"
        and m = 13 and u = "sample_user ''100''" and prayer = "''Fajr''" and today = 0]
    by (simp add: sample_task_def world0_def prayer_intervals_def)
qed

section \<open>Starting and stopping\<close>

text \<open>
  C8, evaluated where it fails. A fresh service is started, stopped, and started again,
  with nothing in between. The first start installs the job and runs. After the stop the
  service is idle, but the scheduler still runs and still holds the job, its shutdown
  being queued. The second start therefore raises from \<^verbatim>\<open>add_job\<close> and leaves the
  service idle.
\<close>

theorem restart_after_stop_raises:
  "start new_service = (None, started_service) \<and>
   is_running started_service \<and>
   running (scheduler started_service) \<and>
   job_store (scheduler started_service) = [''notification_check''] \<and>
   \<not> is_running (stop started_service) \<and>
   running (scheduler (stop started_service)) \<and>
   job_store (scheduler (stop started_service)) = [''notification_check''] \<and>
   queued_shutdowns (scheduler (stop started_service)) = 1 \<and>
   fst (start (stop started_service)) =
     Some ''Job identifier (notification_check) conflicts with an existing job'' \<and>
   \<not> is_running (snd (start (stop started_service))) \<and>
   service_logged (snd (start (stop started_service))) =
     [Starting, Started, Stopping, Stopped, Starting]"
  by (simp add: new_service_def started_service_def start_def stop_def add_job_def
      scheduler_start_def shutdown_def conflicting_id_def)

section \<open>Skipping the prayer check\<close>

lemma get_prayer_times_frame:
  "get_prayer_times env region w = (r, w') \<Longrightarrow>
   users w' = users w \<and> tasks w' = tasks w \<and>
   prayer_notifications w' = prayer_notifications w \<and> attempts w' = attempts w \<and>
   delivered w' = delivered w \<and> ticks w' = Suc (ticks w)"
  by (auto simp: get_prayer_times_def Let_def tick_def log_event_def
      split: response.splits option.splits sum.splits)

text \<open>
  C9: with prayer notifications disabled, or without a region, the prayer check returns at
  once and the world is untouched. When the fetch fails (the request raises, the body has
  no times, or a provider key is missing) or gives an empty result, the check sends
  nothing and counts nothing; it made the one request and leaves the three tables and the
  delivery traces as they were, so nothing carries over to the next cycle.
\<close>

theorem prayer_check_skipped:
  "(\<not> prayer_notifications_enabled u \<or> falsy (prayer_region u) \<longrightarrow>
      check_prayer_notifications env u now w = (0, w)) \<and>
   (http_get env (ticks w) region = HttpFailure e \<longrightarrow>
      fst (get_prayer_times env region w) = None) \<and>
   (http_get env (ticks w) region = JsonBody None \<longrightarrow>
      fst (get_prayer_times env region w) = None) \<and>
   (http_get env (ticks w) region = JsonBody (Some ts) \<and> lookup_times ts = Inl e \<longrightarrow>
      fst (get_prayer_times env region w) = None) \<and>
   (prayer_notifications_enabled u \<and> \<not> falsy (prayer_region u) \<and>
    (fst (get_prayer_times env (the (prayer_region u)) w) = None \<or>
     fst (get_prayer_times env (the (prayer_region u)) w) = Some []) \<longrightarrow>
      fst (check_prayer_notifications env u now w) = 0 \<and>
      users (snd (check_prayer_notifications env u now w)) = users w \<and>
      tasks (snd (check_prayer_notifications env u now w)) = tasks w \<and>
      prayer_notifications (snd (check_prayer_notifications env u now w)) =
        prayer_notifications w \<and>
      attempts (snd (check_prayer_notifications env u now w)) = attempts w \<and>
      delivered (snd (check_prayer_notifications env u now w)) = delivered w \<and>
      ticks (snd (check_prayer_notifications env u now w)) = Suc (ticks w))"
proof -
  have a: "\<not> prayer_notifications_enabled u \<or> falsy (prayer_region u) \<longrightarrow>
      check_prayer_notifications env u now w = (0, w)"
    by (simp add: check_prayer_notifications_def)
  have b: "http_get env (ticks w) region = HttpFailure e \<longrightarrow>
      fst (get_prayer_times env region w) = None"
    by (simp add: get_prayer_times_def)
  have c: "http_get env (ticks w) region = JsonBody None \<longrightarrow>
      fst (get_prayer_times env region w) = None"
    by (simp add: get_prayer_times_def)
  have d: "http_get env (ticks w) region = JsonBody (Some ts) \<and> lookup_times ts = Inl e \<longrightarrow>
      fst (get_prayer_times env region w) = None"
    by (simp add: get_prayer_times_def)
  have f: "prayer_notifications_enabled u \<and> \<not> falsy (prayer_region u) \<and>
    (fst (get_prayer_times env (the (prayer_region u)) w) = None \<or>
     fst (get_prayer_times env (the (prayer_region u)) w) = Some []) \<longrightarrow>
      fst (check_prayer_notifications env u now w) = 0 \<and>
      users (snd (check_prayer_notifications env u now w)) = users w \<and>
      tasks (snd (check_prayer_notifications env u now w)) = tasks w \<and>
      prayer_notifications (snd (check_prayer_notifications env u now w)) =
        prayer_notifications w \<and>
      attempts (snd (check_prayer_notifications env u now w)) = attempts w \<and>
      delivered (snd (check_prayer_notifications env u now w)) = delivered w \<and>
      ticks (snd (check_prayer_notifications env u now w)) = Suc (ticks w)"
  proof (intro impI, elim conjE)
    assume en: "prayer_notifications_enabled u" and rg: "\<not> falsy (prayer_region u)"
      and fl: "fst (get_prayer_times env (the (prayer_region u)) w) = None \<or>
               fst (get_prayer_times env (the (prayer_region u)) w) = Some []"
    obtain r w1 where g: "get_prayer_times env (the (prayer_region u)) w = (r, w1)"
      by (cases "get_prayer_times env (the (prayer_region u)) w")
    from fl g have r: "r = None \<or> r = Some []" by simp
    from en rg g r have "check_prayer_notifications env u now w = (0, w1)"
      by (auto simp: check_prayer_notifications_def Let_def)
    with get_prayer_times_frame [OF g] show
      "fst (check_prayer_notifications env u now w) = 0 \<and>
       users (snd (check_prayer_notifications env u now w)) = users w \<and>
       tasks (snd (check_prayer_notifications env u now w)) = tasks w \<and>
       prayer_notifications (snd (check_prayer_notifications env u now w)) =
         prayer_notifications w \<and>
       attempts (snd (check_prayer_notifications env u now w)) = attempts w \<and>
       delivered (snd (check_prayer_notifications env u now w)) = delivered w \<and>
       ticks (snd (check_prayer_notifications env u now w)) = Suc (ticks w)"
      by simp
  qed
  from a b c d f show ?thesis by blast
qed

text \<open>
  C9 on the sample data: a user without a region, and a user whose provider request times
  out.
\<close>

theorem prayer_check_skipped_witness:
  "falsy (prayer_region ((sample_user ''100'')\<lparr>prayer_region := None\<rparr>)) \<and>
   check_prayer_notifications env_ok ((sample_user ''100'')\<lparr>prayer_region := None\<rparr>)
     17160000000 world0 = (0, world0) \<and>
   http_get env_down (ticks world0) ''Toshkent'' = HttpFailure ''timed out'' \<and>
   fst (get_prayer_times env_down ''Toshkent'' world0) = None \<and>
   fst (check_prayer_notifications env_down (sample_user ''100'') 17160000000 world0) = 0 \<and>
   prayer_notifications
     (snd (check_prayer_notifications env_down (sample_user ''100'') 17160000000 world0)) = [] \<and>
   attempts
     (snd (check_prayer_notifications env_down (sample_user ''100'') 17160000000 world0)) = [] \<and>
   ticks (snd (check_prayer_notifications env_down (sample_user ''100'') 17160000000 world0)) = 1"
proof -
  have h: "http_get env_down (ticks world0) ''Toshkent'' = HttpFailure ''timed out''"
    by (simp add: env_down_def env_ok_def)
  have u: "prayer_notifications_enabled (sample_user ''100'') \<and>
      \<not> falsy (prayer_region (sample_user ''100'')) \<and>
      the (prayer_region (sample_user ''100'')) = ''Toshkent''"
    by (simp add: sample_user_def falsy_def)
  show ?thesis
    using h u
      prayer_check_skipped [where u = "(sample_user ''100'')\<lparr>prayer_region := None\<rparr>"
        and env = env_ok and now = 17160000000 and w = world0]
      prayer_check_skipped [where u = "sample_user ''100''" and env = env_down
        and now = 17160000000 and w = world0 and region = "''Toshkent''"
        and e = "''timed out''"]
    by (simp add: falsy_def world0_def)
qed

section \<open>Every step keeps the relation\<close>

lemma fresh_refl [simp]: "fresh xs xs = []"
  by (simp add: fresh_def)

lemma fresh_snoc: "length xs0 \<le> length xs \<Longrightarrow> fresh xs0 (xs @ ys) = fresh xs0 xs @ ys"
  by (simp add: fresh_def)

lemma unflag_fields [simp]:
  "task_id (unflag t) = task_id t" "due_date (unflag t) = due_date t"
  "task_user_id (unflag t) = task_user_id t" "completed (unflag t) = completed t"
  by (simp_all add: unflag_def)

lemma unflag_eq_fields:
  "unflag r = unflag t \<Longrightarrow> task_id r = task_id t \<and> due_date r = due_date t"
  by (metis unflag_fields(1,2))

lemma unflag_set_sent [simp]: "unflag (set_sent i t) = unflag t"
  by (simp add: unflag_def set_sent_def)

lemma set_sent_fields [simp]:
  "task_id (set_sent i t) = task_id t" "due_date (set_sent i t) = due_date t"
  "name (set_sent i t) = name t"
  by (simp_all add: set_sent_def)

lemma flags_le_refl [simp]: "flags_le t t"
  by (simp add: flags_le_def)

lemma flags_le_trans: "flags_le a b \<Longrightarrow> flags_le b c \<Longrightarrow> flags_le a c"
  by (simp add: flags_le_def)

lemma flags_le_set_sent [simp]: "flags_le t (set_sent i t)"
  by (simp add: flags_le_def set_sent_def)

lemma tracked_set_sent: "tracked w0 t \<Longrightarrow> tracked w0 (set_sent i t)"
  unfolding tracked_def using flags_le_trans [OF _ flags_le_set_sent] by fastforce

lemma user_rel_refl [simp]: "user_rel r r"
  by (simp add: user_rel_def)

lemma block_row_twice [simp]: "block_row s (block_row s' r) = block_row s r"
  by (simp add: block_row_def)

lemma user_rel_block: "user_rel r r' \<Longrightarrow> user_rel r (block_row s r')"
  by (auto simp: user_rel_def)

lemma sweep_inv_refl: "sweep_inv env U w w"
  by (simp add: sweep_inv_def users_ok_def tasks_ok_def prayers_ok_def attempts_ok_def
      delivered_ok_def list_all2_refl)

lemma sweep_inv_cong:
  "users w' = users w \<Longrightarrow> tasks w' = tasks w \<Longrightarrow>
   prayer_notifications w' = prayer_notifications w \<Longrightarrow> attempts w' = attempts w \<Longrightarrow>
   delivered w' = delivered w \<Longrightarrow> sweep_inv env U w0 w' = sweep_inv env U w0 w"
  by (simp add: sweep_inv_def users_ok_def tasks_ok_def prayers_ok_def attempts_ok_def
      delivered_ok_def)

lemma inv_tick [simp]: "sweep_inv env U w0 (tick w) = sweep_inv env U w0 w"
  by (rule sweep_inv_cong) (simp_all add: tick_def)

lemma inv_log [simp]: "sweep_inv env U w0 (log_event ev w) = sweep_inv env U w0 w"
  by (rule sweep_inv_cong) (simp_all add: log_event_def)

lemma tracked_row:
  assumes "sweep_inv env U w0 w" "r' \<in> set (tasks w)"
  shows "tracked w0 r'"
proof -
  from assms have "r' \<in> set (tasks w0)"
    by (simp add: sweep_inv_def tasks_ok_def)
  then show ?thesis
    unfolding tracked_def by (intro bexI [of _ r']) simp_all
qed

lemma inv_send:
  assumes inv: "sweep_inv env U w0 w" and c: "c \<in> U" and ok: "msg_ok w0 msg"
    and s: "send_message env c msg w = (r, w1)"
  shows "sweep_inv env U w0 w1 \<and>
         (r = None \<longrightarrow> (c, msg) \<in> set (fresh (delivered w0) (delivered w1)))"
proof (cases "bot_send env (ticks w) c msg")
  case (Some e)
  with s have w1: "w1 = (tick w)\<lparr>attempts := attempts w @ [(c, msg)]\<rparr>" and r: "r = Some e"
    by (auto simp: send_message_def Let_def)
  from inv c ok have "sweep_inv env U w0 w1"
    unfolding w1 sweep_inv_def users_ok_def tasks_ok_def prayers_ok_def attempts_ok_def
      delivered_ok_def
    by (auto simp: tick_def fresh_snoc)
  with r show ?thesis by simp
next
  case None
  with s have w1: "w1 = (tick w)\<lparr>attempts := attempts w @ [(c, msg)],
      delivered := delivered w @ [(c, msg)]\<rparr>" and r: "r = None"
    by (auto simp: send_message_def Let_def tick_def)
  from inv have len: "length (delivered w0) \<le> length (delivered w)"
    by (simp add: sweep_inv_def delivered_ok_def)
  have t: "tasks_ok w0 w1"
    using inv unfolding w1 sweep_inv_def tasks_ok_def by (simp add: tick_def)
  have p: "prayers_ok w0 w1"
    using inv len unfolding w1 sweep_inv_def prayers_ok_def
    by (auto simp: tick_def fresh_snoc)
  have a: "attempts_ok U w0 w1"
    using inv c ok unfolding w1 sweep_inv_def attempts_ok_def
    by (auto simp: tick_def fresh_snoc)
  have d: "delivered_ok env U w0 w1"
    using inv c ok None unfolding w1 sweep_inv_def delivered_ok_def
    by (auto simp: tick_def fresh_snoc)
  have u: "users_ok w0 w1"
    using inv unfolding w1 sweep_inv_def users_ok_def by (simp add: tick_def)
  have "(c, msg) \<in> set (fresh (delivered w0) (delivered w1))"
    using len unfolding w1 by (simp add: fresh_snoc)
  with t p a d u r show ?thesis by (simp add: sweep_inv_def)
qed


text \<open>Inside the loop the marking raises before it reaches the database.\<close>

lemma mark_attached:
  "mark_task_notification_sent env True t iv w =
     (Some ''Object <Task> is already attached to session 1 (this is 2)'',
      set_sent (interval_id iv) t, w)"
  by (simp add: mark_task_notification_sent_def session_add_def)

lemma inv_record:
  assumes inv: "sweep_inv env U w0 w"
    and d: "(c, PrayerReminder prayer pts iv region) \<in> set (fresh (delivered w0) (delivered w))"
    and rc: "record_prayer_notification env c today prayer (interval_id iv) w = (r, w')"
  shows "sweep_inv env U w0 w'"
proof (cases "db_fault env (ticks w)")
  case (Some e)
  with rc have "w' = tick w"
    by (auto simp: record_prayer_notification_def Let_def)
  with inv show ?thesis by simp
next
  case None
  let ?pn = "\<lparr>pn_user_id = c, pn_date = today, prayer_name = prayer,
               notification_type = interval_id iv\<rparr>"
  from None rc have w': "w' = (tick w)\<lparr>prayer_notifications := prayer_notifications w @ [?pn]\<rparr>"
    by (auto simp: record_prayer_notification_def Let_def)
  have ab: "about_prayer ?pn (c, PrayerReminder prayer pts iv region)"
    by (simp add: about_prayer_def)
  from inv have pre: "prefix (prayer_notifications w0) (prayer_notifications w)"
    by (simp add: sweep_inv_def prayers_ok_def)
  then have len: "length (prayer_notifications w0) \<le> length (prayer_notifications w)"
    by (rule prefix_length_le)
  have "prayers_ok w0 w'"
    using inv pre ab d unfolding w' sweep_inv_def prayers_ok_def
    by (auto simp: tick_def fresh_snoc [OF len])
  moreover have "users_ok w0 w'" "tasks_ok w0 w'" "attempts_ok U w0 w'"
    "delivered_ok env U w0 w'"
    using inv unfolding w' sweep_inv_def users_ok_def tasks_ok_def attempts_ok_def
      delivered_ok_def
    by (simp_all add: tick_def)
  ultimately show ?thesis by (simp add: sweep_inv_def)
qed

lemma inv_block:
  assumes inv: "sweep_inv env U w0 w" and mk: "mark_user_as_blocked env uid w = (r, w')"
  shows "sweep_inv env U w0 w'"
proof -
  let ?g = "\<lambda>stamp r. if user_id r = uid then block_row stamp r else r"
  have upd: "sweep_inv env U w0 (log_event ev ((tick (tick w))\<lparr>users := map (?g stamp) (users w)\<rparr>))"
    for ev stamp
  proof -
    let ?w = "(tick (tick w))\<lparr>users := map (?g stamp) (users w)\<rparr>"
    from inv have "list_all2 user_rel (users w0) (users w)"
      by (simp add: sweep_inv_def users_ok_def)
    then have "list_all2 user_rel (users w0) (map (?g stamp) (users w))"
      unfolding list_all2_map2
      by (rule list_all2_mono) (simp add: user_rel_block)
    then have "users_ok w0 ?w" by (simp add: users_ok_def)
    moreover have "tasks_ok w0 ?w" "prayers_ok w0 ?w" "attempts_ok U w0 ?w"
      "delivered_ok env U w0 ?w"
      using inv unfolding sweep_inv_def tasks_ok_def prayers_ok_def attempts_ok_def
        delivered_ok_def
      by (simp_all add: tick_def)
    ultimately have "sweep_inv env U w0 ?w" by (simp add: sweep_inv_def)
    then show ?thesis by simp
  qed
  from mk have "w' = tick w \<or> w' = tick (tick w) \<or>
      (\<exists>stamp. w' = log_event (UserMarkedBlocked uid)
                  ((tick (tick w))\<lparr>users := map (?g stamp) (users w)\<rparr>))"
    by (auto simp: mark_user_as_blocked_def Let_def tick_def
        split: option.splits sum.splits)
  with inv upd show ?thesis by auto
qed

lemma inv_task_send_failed:
  assumes inv: "sweep_inv env U w0 w"
    and f: "task_send_failed env u e t n w = (r, t', n', w')"
  shows "sweep_inv env U w0 w' \<and> t' = t"
proof (cases "is_user_blocked_error e")
  case True
  obtain r1 w1 where m: "mark_user_as_blocked env (user_id u) w = (r1, w1)"
    by (cases "mark_user_as_blocked env (user_id u) w")
  with True f have "w' = w1" "t' = t" by (auto simp: task_send_failed_def)
  with inv_block [OF inv m] show ?thesis by simp
next
  case False
  with f inv show ?thesis by (auto simp: task_send_failed_def)
qed

lemma inv_prayer_send_failed:
  assumes inv: "sweep_inv env U w0 w"
    and f: "prayer_send_failed env u e n w = (r, n', w')"
  shows "sweep_inv env U w0 w'"
proof (cases "is_user_blocked_error e")
  case True
  obtain r1 w1 where m: "mark_user_as_blocked env (user_id u) w = (r1, w1)"
    by (cases "mark_user_as_blocked env (user_id u) w")
  with True f have "w' = w1" by (auto simp: prayer_send_failed_def)
  with inv_block [OF inv m] show ?thesis by simp
next
  case False
  with f inv show ?thesis by (auto simp: prayer_send_failed_def)
qed

lemma inv_try_send_task:
  assumes inv: "sweep_inv env U w0 w" and u: "user_id u \<in> U"
    and tr: "tracked w0 t" and due: "due_date t \<noteq> None"
    and ns: "\<not> get_sent t (interval_id iv)"
    and run: "try_send_task env u m iv t n w = (r, t', n', w')"
  shows "sweep_inv env U w0 w' \<and> tracked w0 t' \<and> due_date t' = due_date t"
proof -
  let ?msg = "TaskNotification t iv m"
  obtain r1 w1 where s: "send_message env (user_id u) ?msg w = (r1, w1)"
    by (cases "send_message env (user_id u) ?msg w")
  have ok: "msg_ok w0 ?msg" using tr due ns by (simp add: msg_ok_def)
  from inv_send [OF inv u ok s] have inv1: "sweep_inv env U w0 w1" by simp
  show ?thesis
  proof (cases r1)
    case (Some e)
    with run s have "task_send_failed env u e t n w1 = (r, t', n', w')"
      by (simp add: try_send_task_def)
    from inv_task_send_failed [OF inv1 this] tr show ?thesis by simp
  next
    case None
    let ?t2 = "set_sent (interval_id iv) t"
    have tr2: "tracked w0 ?t2" "due_date ?t2 = due_date t"
      using tr by (simp_all add: tracked_set_sent)
    from None run s have
      "task_send_failed env u ''Object <Task> is already attached to session 1 (this is 2)''
         ?t2 n w1 = (r, t', n', w')"
      by (simp add: try_send_task_def mark_attached)
    from inv_task_send_failed [OF inv1 this] tr2 show ?thesis by simp
  qed
qed

lemma should_send_not_sent:
  "should_send_task_notification t iv m \<Longrightarrow> \<not> get_sent t (interval_id iv)"
  by (simp add: should_send_task_notification_def Let_def split: if_splits)

lemma inv_task_intervals_loop:
  assumes "sweep_inv env U w0 w" "user_id u \<in> U" "tracked w0 t" "due_date t \<noteq> None"
    "task_intervals_loop env u m ivs t n w = (r, t', n', w')"
  shows "sweep_inv env U w0 w'"
  using assms
proof (induction ivs arbitrary: t n w)
  case Nil
  then show ?case by simp
next
  case (Cons iv ivs)
  show ?case
  proof (cases "should_send_task_notification t iv m")
    case False
    with Cons.prems have "task_intervals_loop env u m ivs t n w = (r, t', n', w')" by simp
    from Cons.IH [OF Cons.prems(1-4) this] show ?thesis .
  next
    case True
    obtain r1 t1 n1 w1 where tr: "try_send_task env u m iv t n w = (r1, t1, n1, w1)"
      by (cases "try_send_task env u m iv t n w")
    from inv_try_send_task [OF Cons.prems(1-4) should_send_not_sent [OF True] tr]
    have inv1: "sweep_inv env U w0 w1" and t1: "tracked w0 t1" "due_date t1 \<noteq> None"
      using Cons.prems(4) by simp_all
    show ?thesis
    proof (cases r1)
      case (Some e)
      with True tr Cons.prems(5) have "w' = w1" by simp
      with inv1 show ?thesis by simp
    next
      case None
      with True tr Cons.prems(5) have "task_intervals_loop env u m ivs t1 n1 w1 = (r, t', n', w')"
        by simp
      from Cons.IH [OF inv1 Cons.prems(2) t1 this] show ?thesis .
    qed
  qed
qed

lemma inv_tasks_loop:
  assumes "sweep_inv env U w0 w" "user_id u \<in> U" "\<forall>t\<in>set ts. tracked w0 t"
    "tasks_loop env u now ts n w = (r, n', w')"
  shows "sweep_inv env U w0 w'"
  using assms
proof (induction ts arbitrary: n w)
  case Nil
  then show ?case by simp
next
  case (Cons t ts)
  from Cons.prems(3) have rest: "\<forall>t\<in>set ts. tracked w0 t" and tt: "tracked w0 t" by simp_all
  show ?case
  proof (cases "due_date t")
    case None
    with Cons.prems(4) have "tasks_loop env u now ts n w = (r, n', w')" by simp
    from Cons.IH [OF Cons.prems(1,2) rest this] show ?thesis .
  next
    case (Some due)
    obtain r1 t1 n1 w1 where
      il: "task_intervals_loop env u (minutes_until due now) task_intervals t n w = (r1, t1, n1, w1)"
      by (cases "task_intervals_loop env u (minutes_until due now) task_intervals t n w")
    have "due_date t \<noteq> None" using Some by simp
    from inv_task_intervals_loop [OF Cons.prems(1,2) tt this il]
    have inv1: "sweep_inv env U w0 w1" .
    show ?thesis
    proof (cases r1)
      case (Some e)
      with \<open>due_date t = Some due\<close> il Cons.prems(4) have "w' = w1" by simp
      with inv1 show ?thesis by simp
    next
      case None
      with \<open>due_date t = Some due\<close> il Cons.prems(4)
      have "tasks_loop env u now ts n1 w1 = (r, n', w')" by simp
      from Cons.IH [OF inv1 Cons.prems(2) rest this] show ?thesis .
    qed
  qed
qed

lemma inv_check_task:
  assumes inv: "sweep_inv env U w0 w" and u: "user_id u \<in> U"
    and run: "check_task_notifications env u now w = (r, w')"
  shows "sweep_inv env U w0 w'"
proof (cases "notifications_enabled u")
  case False
  with run inv show ?thesis by (simp add: check_task_notifications_def)
next
  case True
  show ?thesis
  proof (cases "db_fault env (ticks w)")
    case (Some e)
    with True run inv show ?thesis by (auto simp: check_task_notifications_def)
  next
    case None
    let ?ts = "filter (\<lambda>t. task_user_id t = user_id u \<and> \<not> completed t) (tasks (tick w))"
    obtain r1 n1 w1 where tl: "tasks_loop env u now ?ts 0 (tick w) = (r1, n1, w1)"
      by (cases "tasks_loop env u now ?ts 0 (tick w)")
    have inv1: "sweep_inv env U w0 (tick w)" using inv by simp
    have "\<forall>t\<in>set ?ts. tracked w0 t"
      using tracked_row [OF inv1] by simp
    from inv_tasks_loop [OF inv1 u this tl] have "sweep_inv env U w0 w1" .
    moreover from True None run tl have "w' = w1"
      by (auto simp: check_task_notifications_def Let_def split: option.splits)
    ultimately show ?thesis by simp
  qed
qed

lemma inv_should_send_prayer:
  assumes "sweep_inv env U w0 w"
    "should_send_prayer_notification env u prayer iv m today w = (r, w')"
  shows "sweep_inv env U w0 w'"
proof -
  from assms(2) have "w' = w \<or> w' = tick w"
    by (auto simp: should_send_prayer_notification_def Let_def
        split: if_splits option.splits sum.splits)
  with assms(1) show ?thesis by auto
qed

lemma inv_try_send_prayer:
  assumes inv: "sweep_inv env U w0 w" and u: "user_id u \<in> U"
    and run: "try_send_prayer env u region prayer pts today iv n w = (r, n', w')"
  shows "sweep_inv env U w0 w'"
proof -
  let ?msg = "PrayerReminder prayer pts iv region"
  obtain r1 w1 where s: "send_message env (user_id u) ?msg w = (r1, w1)"
    by (cases "send_message env (user_id u) ?msg w")
  have ok: "msg_ok w0 ?msg" by (simp add: msg_ok_def)
  from inv_send [OF inv u ok s] have inv1: "sweep_inv env U w0 w1"
    and dl: "r1 = None \<longrightarrow> (user_id u, ?msg) \<in> set (fresh (delivered w0) (delivered w1))"
    by simp_all
  show ?thesis
  proof (cases r1)
    case (Some e)
    with run s have "prayer_send_failed env u e n w1 = (r, n', w')"
      by (simp add: try_send_prayer_def)
    from inv_prayer_send_failed [OF inv1 this] show ?thesis .
  next
    case None
    obtain r2 w2 where
      rc: "record_prayer_notification env (user_id u) today prayer (interval_id iv) w1 = (r2, w2)"
      by (cases "record_prayer_notification env (user_id u) today prayer (interval_id iv) w1")
    from None dl have "(user_id u, ?msg) \<in> set (fresh (delivered w0) (delivered w1))"
      by simp
    from inv_record [OF inv1 this rc] have inv2: "sweep_inv env U w0 w2" .
    show ?thesis
    proof (cases r2)
      case (Some e)
      with None run s rc have "prayer_send_failed env u e n w2 = (r, n', w')"
        by (simp add: try_send_prayer_def)
      from inv_prayer_send_failed [OF inv2 this] show ?thesis .
    next
      case None2: None
      with None run s rc have "w' = log_event (PrayerSent (user_id u) prayer (minutes iv)) w2"
        by (auto simp: try_send_prayer_def)
      with inv2 show ?thesis by simp
    qed
  qed
qed

lemma inv_prayer_intervals_loop:
  assumes "sweep_inv env U w0 w" "user_id u \<in> U"
    "prayer_intervals_loop env u region prayer pts today m ivs n w = (r, n', w')"
  shows "sweep_inv env U w0 w'"
  using assms
proof (induction ivs arbitrary: n w)
  case Nil
  then show ?case by simp
next
  case (Cons iv ivs)
  obtain d w1 where sh: "should_send_prayer_notification env u prayer iv m today w = (d, w1)"
    by (cases "should_send_prayer_notification env u prayer iv m today w")
  from inv_should_send_prayer [OF Cons.prems(1) sh] have inv1: "sweep_inv env U w0 w1" .
  show ?case
  proof (cases d)
    case (Inl e)
    with sh Cons.prems(3) have "w' = w1" by simp
    with inv1 show ?thesis by simp
  next
    case (Inr b)
    show ?thesis
    proof (cases b)
      case False
      with Inr sh Cons.prems(3)
      have "prayer_intervals_loop env u region prayer pts today m ivs n w1 = (r, n', w')"
        by simp
      from Cons.IH [OF inv1 Cons.prems(2) this] show ?thesis .
    next
      case True
      obtain r2 n2 w2 where
        tr: "try_send_prayer env u region prayer pts today iv n w1 = (r2, n2, w2)"
        by (cases "try_send_prayer env u region prayer pts today iv n w1")
      from inv_try_send_prayer [OF inv1 Cons.prems(2) tr] have inv2: "sweep_inv env U w0 w2" .
      show ?thesis
      proof (cases r2)
        case (Some e)
        with True Inr sh tr Cons.prems(3) have "w' = w2" by simp
        with inv2 show ?thesis by simp
      next
        case None
        with True Inr sh tr Cons.prems(3)
        have "prayer_intervals_loop env u region prayer pts today m ivs n2 w2 = (r, n', w')"
          by simp
        from Cons.IH [OF inv2 Cons.prems(2) this] show ?thesis .
      qed
    qed
  qed
qed

lemma inv_prayers_loop:
  assumes "sweep_inv env U w0 w" "user_id u \<in> U"
    "prayers_loop env u region now today prayer_times ps n w = (r, n', w')"
  shows "sweep_inv env U w0 w'"
  using assms
proof (induction ps arbitrary: n w)
  case Nil
  then show ?case by simp
next
  case (Cons prayer ps)
  show ?case
  proof (cases "falsy (map_of prayer_times prayer)")
    case True
    with Cons.prems(3)
    have "prayers_loop env u region now today prayer_times ps n w = (r, n', w')"
      by (simp add: Let_def)
    from Cons.IH [OF Cons.prems(1,2) this] show ?thesis .
  next
    case False
    let ?pts = "the (map_of prayer_times prayer)"
    let ?m = "minutes_until (parse_prayer_time ?pts now) now"
    obtain r1 n1 w1 where
      il: "prayer_intervals_loop env u region prayer ?pts today ?m prayer_intervals n w
             = (r1, n1, w1)"
      by (cases "prayer_intervals_loop env u region prayer ?pts today ?m prayer_intervals n w")
    from inv_prayer_intervals_loop [OF Cons.prems(1,2) il] have inv1: "sweep_inv env U w0 w1" .
    show ?thesis
    proof (cases r1)
      case (Some e)
      with False il Cons.prems(3) have "w' = w1" by (simp add: Let_def)
      with inv1 show ?thesis by simp
    next
      case None
      with False il Cons.prems(3)
      have "prayers_loop env u region now today prayer_times ps n1 w1 = (r, n', w')"
        by (simp add: Let_def)
      from Cons.IH [OF inv1 Cons.prems(2) this] show ?thesis .
    qed
  qed
qed

lemma inv_get_prayer_times:
  assumes "sweep_inv env U w0 w" "get_prayer_times env region w = (r, w')"
  shows "sweep_inv env U w0 w'"
proof -
  from assms(2) have "\<exists>ev. w' = log_event ev (tick w)"
    by (auto simp: get_prayer_times_def Let_def split: response.splits option.splits sum.splits)
  with assms(1) show ?thesis by auto
qed

lemma inv_check_prayer:
  assumes inv: "sweep_inv env U w0 w" and u: "user_id u \<in> U"
    and run: "check_prayer_notifications env u now w = (n, w')"
  shows "sweep_inv env U w0 w'"
proof (cases "\<not> prayer_notifications_enabled u \<or> falsy (prayer_region u)")
  case True
  with run inv show ?thesis by (auto simp: check_prayer_notifications_def)
next
  case False
  let ?region = "the (prayer_region u)"
  obtain g w1 where gp: "get_prayer_times env ?region w = (g, w1)"
    by (cases "get_prayer_times env ?region w")
  from inv_get_prayer_times [OF inv gp] have inv1: "sweep_inv env U w0 w1" .
  show ?thesis
  proof (cases "g = None \<or> g = Some []")
    case True
    with False run gp have "w' = w1"
      by (auto simp: check_prayer_notifications_def Let_def)
    with inv1 show ?thesis by simp
  next
    case ne: False
    then obtain pt where g: "g = Some pt" "pt \<noteq> []" by auto
    obtain r2 n2 w2 where
      pl: "prayers_loop env u ?region now (now div day_us) pt prayers 0 w1 = (r2, n2, w2)"
      by (cases "prayers_loop env u ?region now (now div day_us) pt prayers 0 w1")
    from inv_prayers_loop [OF inv1 u pl] have inv2: "sweep_inv env U w0 w2" .
    from False run gp g pl have "w' = w2 \<or> (\<exists>ev. w' = log_event ev w2)"
      by (auto simp: check_prayer_notifications_def Let_def split: option.splits)
    with inv2 show ?thesis by auto
  qed
qed

lemma inv_users_loop:
  assumes "sweep_inv env U w0 w" "user_id ` set us \<subseteq> U"
    "users_loop env now us total_n w = (r, n', w')"
  shows "sweep_inv env U w0 w'"
  using assms
proof (induction us arbitrary: total_n w)
  case Nil
  then show ?case by simp
next
  case (Cons u us)
  from Cons.prems(2) have u: "user_id u \<in> U" and rest: "user_id ` set us \<subseteq> U" by auto
  obtain c w1 where ct: "check_task_notifications env u now w = (c, w1)"
    by (cases "check_task_notifications env u now w")
  from inv_check_task [OF Cons.prems(1) u ct] have inv1: "sweep_inv env U w0 w1" .
  show ?case
  proof (cases c)
    case (Inl e)
    with ct Cons.prems(3) have "w' = w1" by simp
    with inv1 show ?thesis by simp
  next
    case (Inr task_n)
    obtain prayer_n w2 where cp: "check_prayer_notifications env u now w1 = (prayer_n, w2)"
      by (cases "check_prayer_notifications env u now w1")
    from inv_check_prayer [OF inv1 u cp] have inv2: "sweep_inv env U w0 w2" .
    from Inr ct cp Cons.prems(3)
    have "users_loop env now us (total_n + task_n + prayer_n) w2 = (r, n', w')" by simp
    from Cons.IH [OF inv2 rest this] show ?thesis .
  qed
qed

lemma inv_check_notifications:
  "sweep_inv env (active_ids w) w (check_notifications env w)"
proof -
  let ?w0 = "log_event (Checking (utcnow env (ticks w))) w"
  have inv0: "sweep_inv env (active_ids w) w ?w0"
    using sweep_inv_refl [of env "active_ids w" w] by simp
  show ?thesis
  proof (cases "db_fault env (ticks ?w0)")
    case (Some e)
    then have "check_notifications env w = log_event (CheckError e) (tick ?w0)"
      by (simp add: check_notifications_def Let_def)
    with inv0 show ?thesis by simp
  next
    case None
    let ?active = "filter (\<lambda>u. blocked_bot u = False) (users (tick ?w0))"
    obtain r n w2 where
      ul: "users_loop env (utcnow env (ticks w)) ?active 0 (tick ?w0) = (r, n, w2)"
      by (cases "users_loop env (utcnow env (ticks w)) ?active 0 (tick ?w0)")
    have sub: "user_id ` set ?active \<subseteq> active_ids w"
      by (auto simp: active_ids_def tick_def log_event_def)
    have "sweep_inv env (active_ids w) w (tick ?w0)" using inv0 by simp
    from inv_users_loop [OF this sub ul] have inv2: "sweep_inv env (active_ids w) w w2" .
    from None ul have "check_notifications env w = w2 \<or>
        (\<exists>ev. check_notifications env w = log_event ev w2)"
      by (auto simp: check_notifications_def Let_def split: option.splits)
    with inv2 show ?thesis by auto
  qed
qed

section \<open>Sent state only after a delivery\<close>

lemma sweep_keeps_task_rows: "tasks (check_notifications env w) = tasks w"
  using inv_check_notifications [of env w] by (simp add: sweep_inv_def tasks_ok_def)

lemma prefix_fresh_Nil: "prefix xs ys \<Longrightarrow> fresh xs ys = [] \<Longrightarrow> ys = xs"
  by (auto simp: fresh_def prefix_def)

lemma mark_user_as_blocked_frame:
  "mark_user_as_blocked env uid w = (r, w') \<Longrightarrow>
   tasks w' = tasks w \<and> prayer_notifications w' = prayer_notifications w \<and>
   attempts w' = attempts w \<and> delivered w' = delivered w"
  by (auto simp: mark_user_as_blocked_def Let_def tick_def log_event_def
      split: option.splits sum.splits)

lemma task_send_failed_frame:
  "task_send_failed env u e t n w = (r, t', n', w') \<Longrightarrow>
   tasks w' = tasks w \<and> prayer_notifications w' = prayer_notifications w \<and>
   attempts w' = attempts w \<and> delivered w' = delivered w"
  using mark_user_as_blocked_frame [of env "user_id u" w]
  by (auto simp: task_send_failed_def log_event_def split: if_splits prod.splits)

lemma prayer_send_failed_frame:
  "prayer_send_failed env u e n w = (r, n', w') \<Longrightarrow>
   tasks w' = tasks w \<and> prayer_notifications w' = prayer_notifications w \<and>
   attempts w' = attempts w \<and> delivered w' = delivered w"
  using mark_user_as_blocked_frame [of env "user_id u" w]
  by (auto simp: prayer_send_failed_def log_event_def split: if_splits prod.splits)

lemma try_send_task_refused:
  assumes "bot_send env (ticks w) (user_id u) (TaskNotification t iv m) = Some e"
    and run: "try_send_task env u m iv t n w = (r, t', n', w')"
  shows "tasks w' = tasks w \<and> prayer_notifications w' = prayer_notifications w \<and>
         delivered w' = delivered w \<and> t' = t \<and> n' = n"
proof -
  let ?w1 = "(tick w)\<lparr>attempts := attempts w @ [(user_id u, TaskNotification t iv m)]\<rparr>"
  from assms have f: "task_send_failed env u e t n ?w1 = (r, t', n', w')"
    by (simp add: try_send_task_def send_message_def Let_def)
  from task_send_failed_frame [OF f] have
    "tasks w' = tasks w \<and> prayer_notifications w' = prayer_notifications w \<and>
     delivered w' = delivered w"
    by (simp add: tick_def)
  moreover from f have "t' = t \<and> n' = n"
    by (auto simp: task_send_failed_def split: if_splits prod.splits)
  ultimately show ?thesis by simp
qed

lemma try_send_prayer_refused:
  assumes "bot_send env (ticks w) (user_id u) (PrayerReminder prayer pts iv region) = Some e"
    and run: "try_send_prayer env u region prayer pts today iv n w = (r, n', w')"
  shows "tasks w' = tasks w \<and> prayer_notifications w' = prayer_notifications w \<and>
         delivered w' = delivered w \<and> n' = n"
proof -
  let ?w1 = "(tick w)\<lparr>attempts :=
      attempts w @ [(user_id u, PrayerReminder prayer pts iv region)]\<rparr>"
  from assms have f: "prayer_send_failed env u e n ?w1 = (r, n', w')"
    by (simp add: try_send_prayer_def send_message_def Let_def)
  from prayer_send_failed_frame [OF f] have
    "tasks w' = tasks w \<and> prayer_notifications w' = prayer_notifications w \<and>
     delivered w' = delivered w"
    by (simp add: tick_def)
  moreover from f have "n' = n"
    by (auto simp: prayer_send_failed_def split: if_splits prod.splits)
  ultimately show ?thesis by simp
qed

text \<open>
  C5: in one sweep, a sent-flag that goes from false to true in the store has a delivery
  about that task and threshold among the deliveries of this sweep (in fact no flag reaches
  the store at all, see \<open>sweep_keeps_task_rows\<close>); the prayer records are the old ones
  followed by new ones, each of which has a delivery about it in this sweep; and every
  delivery of the sweep is a call the bot accepted. Hence, when every delivery raises, the
  sweep leaves the task rows and the prayer records as they were. At a single firing: when
  the call raises, the task rows (and the task object) or the prayer records are unchanged.
\<close>

theorem sent_state_only_after_delivery:
  "list_all2
     (\<lambda>r r'. \<forall>i. get_sent r' i \<and> \<not> get_sent r i \<longrightarrow>
        (\<exists>x\<in>set (fresh (delivered w) (delivered (check_notifications env w))).
           about_task (task_id r) i x))
     (tasks w) (tasks (check_notifications env w)) \<and>
   prefix (prayer_notifications w) (prayer_notifications (check_notifications env w)) \<and>
   (\<forall>pn\<in>set (fresh (prayer_notifications w)
                (prayer_notifications (check_notifications env w))).
      \<exists>x\<in>set (fresh (delivered w) (delivered (check_notifications env w))).
        about_prayer pn x) \<and>
   (\<forall>x\<in>set (fresh (delivered w) (delivered (check_notifications env w))).
      \<exists>k. bot_send env k (fst x) (snd x) = None) \<and>
   ((\<forall>k c msg. bot_send env k c msg \<noteq> None) \<longrightarrow>
      tasks (check_notifications env w) = tasks w \<and>
      prayer_notifications (check_notifications env w) = prayer_notifications w) \<and>
   (bot_send env (ticks w) (user_id u) (TaskNotification t iv m) \<noteq> None \<longrightarrow>
      tasks (snd (snd (snd (try_send_task env u m iv t n w)))) = tasks w \<and>
      fst (snd (try_send_task env u m iv t n w)) = t) \<and>
   (bot_send env (ticks w) (user_id u) (PrayerReminder prayer pts iv region) \<noteq> None \<longrightarrow>
      prayer_notifications
        (snd (snd (try_send_prayer env u region prayer pts today iv n w))) =
      prayer_notifications w)"
proof -
  let ?w' = "check_notifications env w"
  let ?D = "fresh (delivered w) (delivered ?w')"
  have inv: "sweep_inv env (active_ids w) w ?w'" by (rule inv_check_notifications)
  then have pre: "prefix (prayer_notifications w) (prayer_notifications ?w')"
    and pj: "\<forall>pn\<in>set (fresh (prayer_notifications w) (prayer_notifications ?w')).
               \<exists>x\<in>set ?D. about_prayer pn x"
    and acc: "\<forall>x\<in>set ?D. \<exists>k. bot_send env k (fst x) (snd x) = None"
    by (simp_all add: sweep_inv_def prayers_ok_def delivered_ok_def)
  have teq: "tasks ?w' = tasks w" by (rule sweep_keeps_task_rows)
  have a: "list_all2
     (\<lambda>r r'. \<forall>i. get_sent r' i \<and> \<not> get_sent r i \<longrightarrow> (\<exists>x\<in>set ?D. about_task (task_id r) i x))
     (tasks w) (tasks ?w')"
    unfolding teq by (simp add: list_all2_same)
  have e: "(\<forall>k c msg. bot_send env k c msg \<noteq> None) \<longrightarrow>
      tasks ?w' = tasks w \<and> prayer_notifications ?w' = prayer_notifications w"
  proof
    assume all: "\<forall>k c msg. bot_send env k c msg \<noteq> None"
    with acc have D: "?D = []" by (cases ?D) auto
    from pj D have "fresh (prayer_notifications w) (prayer_notifications ?w') = []"
      by (cases "fresh (prayer_notifications w) (prayer_notifications ?w')") auto
    from prefix_fresh_Nil [OF pre this] teq
    show "tasks ?w' = tasks w \<and> prayer_notifications ?w' = prayer_notifications w" by simp
  qed
  have f: "bot_send env (ticks w) (user_id u) (TaskNotification t iv m) \<noteq> None \<longrightarrow>
      tasks (snd (snd (snd (try_send_task env u m iv t n w)))) = tasks w \<and>
      fst (snd (try_send_task env u m iv t n w)) = t"
  proof
    assume "bot_send env (ticks w) (user_id u) (TaskNotification t iv m) \<noteq> None"
    then obtain e where e: "bot_send env (ticks w) (user_id u) (TaskNotification t iv m) = Some e"
      by auto
    obtain r t' n' w' where run: "try_send_task env u m iv t n w = (r, t', n', w')"
      by (cases "try_send_task env u m iv t n w")
    from try_send_task_refused [OF e run] run
    show "tasks (snd (snd (snd (try_send_task env u m iv t n w)))) = tasks w \<and>
      fst (snd (try_send_task env u m iv t n w)) = t" by simp
  qed
  have g: "bot_send env (ticks w) (user_id u) (PrayerReminder prayer pts iv region) \<noteq> None \<longrightarrow>
      prayer_notifications
        (snd (snd (try_send_prayer env u region prayer pts today iv n w))) =
      prayer_notifications w"
  proof
    assume "bot_send env (ticks w) (user_id u) (PrayerReminder prayer pts iv region) \<noteq> None"
    then obtain e where
      e: "bot_send env (ticks w) (user_id u) (PrayerReminder prayer pts iv region) = Some e"
      by auto
    obtain r n' w' where run: "try_send_prayer env u region prayer pts today iv n w = (r, n', w')"
      by (cases "try_send_prayer env u region prayer pts today iv n w")
    from try_send_prayer_refused [OF e run] run
    show "prayer_notifications
        (snd (snd (try_send_prayer env u region prayer pts today iv n w))) =
      prayer_notifications w" by simp
  qed
  from a pre pj acc e f g show ?thesis by blast
qed

text \<open>
  C5 on the sample data. With every delivery failing the task rows are as before and no
  prayer record appears. With every delivery succeeding the two Fajr records appear, each
  after its delivery; the two task reminders are delivered as well, and no flag is stored.
\<close>

theorem sent_state_only_after_delivery_witness:
  "(\<forall>k c msg. bot_send env_send_fails k c msg \<noteq> None) \<and>
   tasks (check_notifications env_send_fails world0) =
     [sample_task 1 ''100'' (Some 20640000000), sample_task 2 ''200'' (Some 20640000000)] \<and>
   prayer_notifications (check_notifications env_send_fails world0) = [] \<and>
   tasks (snd (snd (snd (try_send_task env_send_fails (sample_user ''100'') 58
     (task_intervals ! 1) (sample_task 1 ''100'' (Some 20640000000)) 0 world0)))) =
     [sample_task 1 ''100'' (Some 20640000000), sample_task 2 ''200'' (Some 20640000000)] \<and>
   map attempt_kind (delivered (check_notifications env_ok world0)) =
     [(''100'', Inl 1), (''100'', Inr ''Fajr''), (''200'', Inl 2), (''200'', Inr ''Fajr'')] \<and>
   map pn_user_id (prayer_notifications (check_notifications env_ok world0)) =
     [''100'', ''200''] \<and>
   map prayer_name (prayer_notifications (check_notifications env_ok world0)) =
     [''Fajr'', ''Fajr''] \<and>
   map get_sent_1hour (tasks (check_notifications env_ok world0)) = [False, False]"
proof -
  have h: "\<forall>k c msg. bot_send env_send_fails k c msg \<noteq> None"
    by (simp add: env_send_fails_def)
  have ok: "map attempt_kind (delivered (check_notifications env_ok world0)) =
     [(''100'', Inl 1), (''100'', Inr ''Fajr''), (''200'', Inl 2), (''200'', Inr ''Fajr'')]"
    "map pn_user_id (prayer_notifications (check_notifications env_ok world0)) =
     [''100'', ''200'']"
    "map prayer_name (prayer_notifications (check_notifications env_ok world0)) =
     [''Fajr'', ''Fajr'']"
    "map get_sent_1hour (tasks (check_notifications env_ok world0)) = [False, False]"
    by code_simp+
  show ?thesis
    using h ok
      sent_state_only_after_delivery [where env = env_send_fails and w = world0
        and u = "sample_user ''100''" and t = "sample_task 1 ''100'' (Some 20640000000)"
        and iv = "task_intervals ! 1" and m = 58 and n = 0]
    by (simp add: world0_def env_send_fails_def)
qed

section \<open>The sent-flag of a delivered reminder\<close>

text \<open>
  C6, evaluated where it fails. Every outward call succeeds. The first sweep delivers the
  1-hour reminders of tasks 1 and 2; for each, the marking raises at
  \<^verbatim>\<open>session.add(task)\<close>, the failure is logged, and the stored flags stay false. A
  second sweep on the resulting state, at the same minute, finds both flags false and
  delivers both reminders again; only the prayer reminders, whose records were inserted,
  are not repeated.
\<close>

theorem second_sweep_sends_again:
  "map attempt_kind (delivered (sweeps env_ok 1 world0)) =
     [(''100'', Inl 1), (''100'', Inr ''Fajr''), (''200'', Inl 2), (''200'', Inr ''Fajr'')] \<and>
   logged (sweeps env_ok 1 world0) =
     [Checking 17160000000,
      TaskSendFailed ''100'' ''Object <Task> is already attached to session 1 (this is 2)'',
      PrayerFetched ''Toshkent'', PrayerSent ''100'' ''Fajr'' 15,
      TaskSendFailed ''200'' ''Object <Task> is already attached to session 1 (this is 2)'',
      PrayerFetched ''Toshkent'', PrayerSent ''200'' ''Fajr'' 15, SentTotal 2] \<and>
   map get_sent_1hour (tasks (sweeps env_ok 1 world0)) = [False, False] \<and>
   map attempt_kind
     (fresh (delivered (sweeps env_ok 1 world0)) (delivered (sweeps env_ok 2 world0))) =
     [(''100'', Inl 1), (''200'', Inl 2)] \<and>
   map get_sent_1hour (tasks (sweeps env_ok 2 world0)) = [False, False]"
proof -
  have a: "map attempt_kind (delivered (sweeps env_ok 1 world0)) =
     [(''100'', Inl 1), (''100'', Inr ''Fajr''), (''200'', Inl 2), (''200'', Inr ''Fajr'')]"
    by code_simp
  have b: "logged (sweeps env_ok 1 world0) =
     [Checking 17160000000,
      TaskSendFailed ''100'' ''Object <Task> is already attached to session 1 (this is 2)'',
      PrayerFetched ''Toshkent'', PrayerSent ''100'' ''Fajr'' 15,
      TaskSendFailed ''200'' ''Object <Task> is already attached to session 1 (this is 2)'',
      PrayerFetched ''Toshkent'', PrayerSent ''200'' ''Fajr'' 15, SentTotal 2]"
    by code_simp
  have c: "map get_sent_1hour (tasks (sweeps env_ok 1 world0)) = [False, False]"
    by code_simp
  have d: "map attempt_kind
     (fresh (delivered (sweeps env_ok 1 world0)) (delivered (sweeps env_ok 2 world0))) =
     [(''100'', Inl 1), (''200'', Inl 2)]"
    by code_simp
  have e: "map get_sent_1hour (tasks (sweeps env_ok 2 world0)) = [False, False]"
    by code_simp
  from a b c d e show ?thesis by blast
qed

section \<open>Blocked users\<close>

lemma lower_indicators: "list_all (\<lambda>ind. lower ind = ind) blocked_indicators"
  by code_simp

lemma indicator_found:
  assumes "ind \<in> set blocked_indicators" "sublist ind (lower e)"
  shows "is_user_blocked_error e"
  using assms by (auto simp: is_user_blocked_error_def Let_def list_ex_iff)

lemma indicator_in_message:
  assumes "ind \<in> set blocked_indicators" "sublist ind e"
  shows "is_user_blocked_error e"
proof -
  from assms(1) lower_indicators have "lower ind = ind" by (simp add: list_all_iff)
  moreover from assms(2) have "sublist (lower ind) (lower e)"
    unfolding lower_def by (rule map_mono_sublist)
  ultimately show ?thesis using indicator_found [OF assms(1)] by simp
qed

lemma mark_user_as_blocked_done:
  assumes "db_fault env (ticks w) = None" "db_fault env (Suc (ticks w)) = None"
    "filter (\<lambda>r. user_id r = uid) (users w) = [r0]"
  shows "mark_user_as_blocked env uid w =
    (None, log_event (UserMarkedBlocked uid)
       ((tick (tick w))\<lparr>users :=
          map (\<lambda>r. if user_id r = uid then block_row (utcnow env (Suc (ticks w))) r else r)
            (users w)\<rparr>))"
  using assms
  by (simp add: mark_user_as_blocked_def Let_def tick_def scalar_one_or_none_def)

lemma user_rel_one_way:
  "user_rel r r' \<Longrightarrow>
   user_id r' = user_id r \<and> (blocked_bot r \<longrightarrow> blocked_bot r') \<and>
   (notifications_enabled r' \<longrightarrow> notifications_enabled r) \<and>
   (prayer_notifications_enabled r' \<longrightarrow> prayer_notifications_enabled r)"
  by (auto simp: user_rel_def block_row_def)

lemma sweep_users_one_way:
  "list_all2 (\<lambda>r r'. user_id r' = user_id r \<and> (blocked_bot r \<longrightarrow> blocked_bot r') \<and>
       (notifications_enabled r' \<longrightarrow> notifications_enabled r) \<and>
       (prayer_notifications_enabled r' \<longrightarrow> prayer_notifications_enabled r))
     (users w) (users (check_notifications env w))"
proof -
  have "sweep_inv env (active_ids w) w (check_notifications env w)"
    by (rule inv_check_notifications)
  then have "list_all2 user_rel (users w) (users (check_notifications env w))"
    by (simp add: sweep_inv_def users_ok_def)
  then show ?thesis
    by (rule list_all2_mono) (rule user_rel_one_way)
qed

lemma sweeps_users_one_way:
  "list_all2 (\<lambda>r r'. user_id r' = user_id r \<and> (blocked_bot r \<longrightarrow> blocked_bot r') \<and>
       (notifications_enabled r' \<longrightarrow> notifications_enabled r) \<and>
       (prayer_notifications_enabled r' \<longrightarrow> prayer_notifications_enabled r))
     (users w) (users (sweeps env k w))"
proof (induction k arbitrary: w)
  case 0
  show ?case by (simp add: list_all2_refl)
next
  case (Suc k)
  have "list_all2 (\<lambda>r r'. user_id r' = user_id r \<and> (blocked_bot r \<longrightarrow> blocked_bot r') \<and>
       (notifications_enabled r' \<longrightarrow> notifications_enabled r) \<and>
       (prayer_notifications_enabled r' \<longrightarrow> prayer_notifications_enabled r))
      (users w) (users (sweeps env k (check_notifications env w)))"
    using sweep_users_one_way [of w env] Suc.IH [of "check_notifications env w"]
    by (rule list_all2_trans [rotated]) auto
  then show ?case by simp
qed

text \<open>
  C7: an error whose message contains one of the indicator phrases, in any letter case, is
  classified as "blocked". When a task or prayer delivery fails with such an error, and the
  two statements of the marking are answered by the database for the one row of that
  user, the users afterwards are the users before with that row blocked: flag set, time
  recorded, both toggles off; rows of other users are the same. Over any number of sweeps
  a set flag stays set and a toggle that is off stays off.
\<close>

theorem blocked_user_marked_one_way:
  "(ind \<in> set blocked_indicators \<and> (sublist ind e \<or> sublist ind (lower e)) \<longrightarrow>
      is_user_blocked_error e) \<and>
   (sublist ''bot was blocked by the user'' e \<longrightarrow> is_user_blocked_error e) \<and>
   (is_user_blocked_error e \<and>
    bot_send env (ticks w) (user_id u) (TaskNotification t iv m) = Some e \<and>
    db_fault env (Suc (ticks w)) = None \<and> db_fault env (Suc (Suc (ticks w))) = None \<and>
    filter (\<lambda>r. user_id r = user_id u) (users w) = [r0] \<longrightarrow>
      users (snd (snd (snd (try_send_task env u m iv t n w)))) =
        map (\<lambda>r. if user_id r = user_id u
                  then block_row (utcnow env (Suc (Suc (ticks w)))) r else r) (users w)) \<and>
   (is_user_blocked_error e \<and>
    bot_send env (ticks w) (user_id u) (PrayerReminder prayer pts iv region) = Some e \<and>
    db_fault env (Suc (ticks w)) = None \<and> db_fault env (Suc (Suc (ticks w))) = None \<and>
    filter (\<lambda>r. user_id r = user_id u) (users w) = [r0] \<longrightarrow>
      users (snd (snd (try_send_prayer env u region prayer pts today iv n w))) =
        map (\<lambda>r. if user_id r = user_id u
                  then block_row (utcnow env (Suc (Suc (ticks w)))) r else r) (users w)) \<and>
   blocked_bot (block_row stamp r) \<and> blocked_at (block_row stamp r) = Some stamp \<and>
   \<not> notifications_enabled (block_row stamp r) \<and>
   \<not> prayer_notifications_enabled (block_row stamp r) \<and>
   user_id (block_row stamp r) = user_id r \<and>
   list_all2 (\<lambda>r r'. user_id r' = user_id r \<and> (blocked_bot r \<longrightarrow> blocked_bot r') \<and>
       (notifications_enabled r' \<longrightarrow> notifications_enabled r) \<and>
       (prayer_notifications_enabled r' \<longrightarrow> prayer_notifications_enabled r))
     (users w) (users (sweeps env k w))"
proof -
  have a: "ind \<in> set blocked_indicators \<and> (sublist ind e \<or> sublist ind (lower e)) \<longrightarrow>
      is_user_blocked_error e"
    using indicator_found indicator_in_message by blast
  have b: "sublist ''bot was blocked by the user'' e \<longrightarrow> is_user_blocked_error e"
    using indicator_in_message [of "''bot was blocked by the user''" e]
    by (simp add: blocked_indicators_def)
  have mk: "mark_user_as_blocked env (user_id u) ((tick w)\<lparr>attempts := attempts w @ [x]\<rparr>) =
      (None, log_event (UserMarkedBlocked (user_id u))
         ((tick (tick ((tick w)\<lparr>attempts := attempts w @ [x]\<rparr>)))\<lparr>users :=
            map (\<lambda>r. if user_id r = user_id u
                      then block_row (utcnow env (Suc (Suc (ticks w)))) r else r) (users w)\<rparr>))"
    if "db_fault env (Suc (ticks w)) = None" "db_fault env (Suc (Suc (ticks w))) = None"
      "filter (\<lambda>r. user_id r = user_id u) (users w) = [r0]" for x
    using that
      mark_user_as_blocked_done [of env "(tick w)\<lparr>attempts := attempts w @ [x]\<rparr>" "user_id u" r0]
    by (simp add: tick_def cong: if_cong)
  have c: "is_user_blocked_error e \<and>
    bot_send env (ticks w) (user_id u) (TaskNotification t iv m) = Some e \<and>
    db_fault env (Suc (ticks w)) = None \<and> db_fault env (Suc (Suc (ticks w))) = None \<and>
    filter (\<lambda>r. user_id r = user_id u) (users w) = [r0] \<longrightarrow>
      users (snd (snd (snd (try_send_task env u m iv t n w)))) =
        map (\<lambda>r. if user_id r = user_id u
                  then block_row (utcnow env (Suc (Suc (ticks w)))) r else r) (users w)"
  proof (intro impI, elim conjE)
    assume h: "is_user_blocked_error e"
      "bot_send env (ticks w) (user_id u) (TaskNotification t iv m) = Some e"
      "db_fault env (Suc (ticks w)) = None" "db_fault env (Suc (Suc (ticks w))) = None"
      "filter (\<lambda>r. user_id r = user_id u) (users w) = [r0]"
    from h(1,2) mk [OF h(3-5)]
    show "users (snd (snd (snd (try_send_task env u m iv t n w)))) =
        map (\<lambda>r. if user_id r = user_id u
                  then block_row (utcnow env (Suc (Suc (ticks w)))) r else r) (users w)"
      by (simp add: try_send_task_def send_message_def Let_def task_send_failed_def
          log_event_def tick_def)
  qed
  have d: "is_user_blocked_error e \<and>
    bot_send env (ticks w) (user_id u) (PrayerReminder prayer pts iv region) = Some e \<and>
    db_fault env (Suc (ticks w)) = None \<and> db_fault env (Suc (Suc (ticks w))) = None \<and>
    filter (\<lambda>r. user_id r = user_id u) (users w) = [r0] \<longrightarrow>
      users (snd (snd (try_send_prayer env u region prayer pts today iv n w))) =
        map (\<lambda>r. if user_id r = user_id u
                  then block_row (utcnow env (Suc (Suc (ticks w)))) r else r) (users w)"
  proof (intro impI, elim conjE)
    assume h: "is_user_blocked_error e"
      "bot_send env (ticks w) (user_id u) (PrayerReminder prayer pts iv region) = Some e"
      "db_fault env (Suc (ticks w)) = None" "db_fault env (Suc (Suc (ticks w))) = None"
      "filter (\<lambda>r. user_id r = user_id u) (users w) = [r0]"
    from h(1,2) mk [OF h(3-5)]
    show "users (snd (snd (try_send_prayer env u region prayer pts today iv n w))) =
        map (\<lambda>r. if user_id r = user_id u
                  then block_row (utcnow env (Suc (Suc (ticks w)))) r else r) (users w)"
      by (simp add: try_send_prayer_def send_message_def Let_def prayer_send_failed_def
          log_event_def tick_def)
  qed
  have f: "blocked_bot (block_row stamp r) \<and> blocked_at (block_row stamp r) = Some stamp \<and>
   \<not> notifications_enabled (block_row stamp r) \<and>
   \<not> prayer_notifications_enabled (block_row stamp r) \<and>
   user_id (block_row stamp r) = user_id r"
    by (simp add: block_row_def)
  from a b c d f sweeps_users_one_way [of w env k] show ?thesis by blast
qed

text \<open>
  C7 on the sample data: delivery to user 100 is refused with "bot was blocked by the
  user"; the handler blocks the row of user 100 and leaves user 200 alone, and the flag
  is still set after two sweeps.
\<close>

theorem blocked_user_marked_one_way_witness:
  "is_user_blocked_error ''Forbidden: bot was blocked by the user'' \<and>
   bot_send env_blocked (ticks world0) (user_id (sample_user ''100''))
     (TaskNotification (sample_task 1 ''100'' (Some 20640000000)) (task_intervals ! 1) 58) =
     Some ''Forbidden: bot was blocked by the user'' \<and>
   db_fault env_blocked (Suc (ticks world0)) = None \<and>
   db_fault env_blocked (Suc (Suc (ticks world0))) = None \<and>
   filter (\<lambda>r. user_id r = user_id (sample_user ''100'')) (users world0) = [sample_user ''100''] \<and>
   users (snd (snd (snd (try_send_task env_blocked (sample_user ''100'') 58 (task_intervals ! 1)
     (sample_task 1 ''100'' (Some 20640000000)) 0 world0)))) =
     [block_row 17160000000 (sample_user ''100''), sample_user ''200''] \<and>
   map blocked_bot (users (sweeps env_blocked 2 world0)) = [True, False]"
proof -
  have h: "is_user_blocked_error ''Forbidden: bot was blocked by the user''"
    "map blocked_bot (users (sweeps env_blocked 2 world0)) = [True, False]"
    by code_simp+
  have g: "bot_send env_blocked (ticks world0) (user_id (sample_user ''100''))
     (TaskNotification (sample_task 1 ''100'' (Some 20640000000)) (task_intervals ! 1) 58) =
     Some ''Forbidden: bot was blocked by the user''"
    "db_fault env_blocked (Suc (ticks world0)) = None"
    "db_fault env_blocked (Suc (Suc (ticks world0))) = None"
    "filter (\<lambda>r. user_id r = user_id (sample_user ''100'')) (users world0) = [sample_user ''100'']"
    "utcnow env_blocked (Suc (Suc (ticks world0))) = 17160000000"
    by (simp_all add: env_blocked_def env_ok_def world0_def sample_user_def)
  show ?thesis
    using h g
      blocked_user_marked_one_way [where e = "''Forbidden: bot was blocked by the user''"
        and env = env_blocked and w = world0 and u = "sample_user ''100''"
        and t = "sample_task 1 ''100'' (Some 20640000000)" and iv = "task_intervals ! 1"
        and m = 58 and n = 0 and ?r0.0 = "sample_user ''100''" and k = 2]
    by (simp add: world0_def sample_user_def)
qed

section \<open>Tasks without a due date\<close>

lemma attempt_has_due_date:
  assumes "x \<in> set (fresh (attempts w) (attempts (check_notifications env w)))"
    "snd x = TaskNotification t iv m"
  shows "due_date t \<noteq> None \<and> (\<exists>r\<in>set (tasks w). task_id r = task_id t \<and> due_date r = due_date t)"
proof -
  have "sweep_inv env (active_ids w) w (check_notifications env w)"
    by (rule inv_check_notifications)
  with assms(1) have "msg_ok w (snd x)"
    by (auto simp: sweep_inv_def attempts_ok_def)
  with assms(2) have d: "due_date t \<noteq> None" and "tracked w t"
    by (simp_all add: msg_ok_def)
  then obtain r where "r \<in> set (tasks w)" "unflag r = unflag t"
    by (auto simp: tracked_def)
  with d unflag_eq_fields [of r t] show ?thesis by auto
qed

lemma undated_rows_kept:
  "list_all2 (\<lambda>r r'. task_id r = tid \<longrightarrow> r' = r) (tasks w) (tasks (check_notifications env w))"
  unfolding sweep_keeps_task_rows by (simp add: list_all2_same)

text \<open>
  C10: a task whose \<open>due_date\<close> is absent is passed over by the loop over the tasks: no
  threshold is looked at and the world is not touched. In a whole sweep no call of
  \<open>send_message\<close> is about a task without a due date; and for a task identifier whose
  rows have no due date, the sweep makes no call about it and leaves its rows, flags
  included, as they were.
\<close>

theorem undated_task_skipped:
  "(due_date t = None \<longrightarrow> tasks_loop env u now (t # ts) n w = tasks_loop env u now ts n w) \<and>
   \<not> (\<exists>x\<in>set (fresh (attempts w) (attempts (check_notifications env w))). undated x) \<and>
   ((\<forall>r\<in>set (tasks w). task_id r = tid \<longrightarrow> due_date r = None) \<longrightarrow>
      \<not> (\<exists>x\<in>set (fresh (attempts w) (attempts (check_notifications env w))). for_task tid x) \<and>
      list_all2 (\<lambda>r r'. task_id r = tid \<longrightarrow> r' = r)
        (tasks w) (tasks (check_notifications env w)))"
proof -
  have a: "due_date t = None \<longrightarrow> tasks_loop env u now (t # ts) n w = tasks_loop env u now ts n w"
    by simp
  have b: "\<not> (\<exists>x\<in>set (fresh (attempts w) (attempts (check_notifications env w))). undated x)"
    using attempt_has_due_date [of _ w env]
    by (auto simp: undated_def split: message.splits)
  have c: "(\<forall>r\<in>set (tasks w). task_id r = tid \<longrightarrow> due_date r = None) \<longrightarrow>
      \<not> (\<exists>x\<in>set (fresh (attempts w) (attempts (check_notifications env w))). for_task tid x) \<and>
      list_all2 (\<lambda>r r'. task_id r = tid \<longrightarrow> r' = r)
        (tasks w) (tasks (check_notifications env w))"
  proof
    assume all: "\<forall>r\<in>set (tasks w). task_id r = tid \<longrightarrow> due_date r = None"
    have "\<not> (\<exists>x\<in>set (fresh (attempts w) (attempts (check_notifications env w))). for_task tid x)"
    proof
      assume "\<exists>x\<in>set (fresh (attempts w) (attempts (check_notifications env w))). for_task tid x"
      then obtain x where x: "x \<in> set (fresh (attempts w) (attempts (check_notifications env w)))"
        and ft: "for_task tid x" by blast
      from ft obtain t iv m where s: "snd x = TaskNotification t iv m" "task_id t = tid"
        by (cases "snd x") (simp_all add: for_task_def)
      from attempt_has_due_date [OF x s(1)] s(2) all show False by auto
    qed
    with undated_rows_kept [of tid w env]
    show "\<not> (\<exists>x\<in>set (fresh (attempts w) (attempts (check_notifications env w))). for_task tid x) \<and>
      list_all2 (\<lambda>r r'. task_id r = tid \<longrightarrow> r' = r)
        (tasks w) (tasks (check_notifications env w))" by simp
  qed
  from a b c show ?thesis by blast
qed

text \<open>
  C10 on the sample data with the due date of task 1 removed: the sweep calls
  \<open>send_message\<close> for the prayer reminders and for task 2 only, and the row of task 1 is
  as it was.
\<close>

theorem undated_task_skipped_witness:
  "due_date (sample_task 1 ''100'' None) = None \<and>
   map attempt_kind (attempts (check_notifications env_ok world_undated)) =
     [(''100'', Inr ''Fajr''), (''200'', Inl 2), (''200'', Inr ''Fajr'')] \<and>
   tasks (check_notifications env_ok world_undated) ! 0 = sample_task 1 ''100'' None \<and>
   tasks_loop env_ok (sample_user ''100'') 17160000000 [sample_task 1 ''100'' None] 0
     world_undated = (None, 0, world_undated)"
proof -
  have e: "map attempt_kind (attempts (check_notifications env_ok world_undated)) =
     [(''100'', Inr ''Fajr''), (''200'', Inl 2), (''200'', Inr ''Fajr'')]"
    "tasks (check_notifications env_ok world_undated) ! 0 = sample_task 1 ''100'' None"
    by code_simp+
  show ?thesis
    using e undated_task_skipped [where t = "sample_task 1 ''100'' None" and ts = "[]"
        and env = env_ok and u = "sample_user ''100''" and now = 17160000000 and n = 0
        and w = world_undated and tid = 1]
    by (simp add: sample_task_def)
qed

section \<open>After a user is found blocked\<close>

text \<open>
  C2, as stated: after a delivery failure classified as "blocked" the engine stops
  processing that user for the rest of the sweep. It does not. User 100 owns two tasks
  due in 58 minutes, and every delivery to user 100 is refused as blocked. The first
  refusal marks the user; the sweep then still calls \<open>send_message\<close> for the second
  task and, after fetching the prayer times, for the Fajr reminder, all addressed to user
  100.
\<close>

theorem stop_after_unreachable_counterexample:
  "bot_send env_blocked 2 ''100''
     (TaskNotification (sample_task 1 ''100'' (Some 20640000000)) (task_intervals ! 1) 58) =
     Some ''Forbidden: bot was blocked by the user'' \<and>
   is_user_blocked_error ''Forbidden: bot was blocked by the user'' \<and>
   map attempt_kind (attempts (check_notifications env_blocked world_two_tasks)) =
     [(''100'', Inl 1), (''100'', Inl 3), (''100'', Inr ''Fajr'')] \<and>
   logged (check_notifications env_blocked world_two_tasks) =
     [Checking 17160000000, UserMarkedBlocked ''100'', UserMarkedBlocked ''100'',
      PrayerFetched ''Toshkent'', UserMarkedBlocked ''100''] \<and>
   map blocked_bot (users (check_notifications env_blocked world_two_tasks)) = [True]"
proof -
  have a: "bot_send env_blocked 2 ''100''
     (TaskNotification (sample_task 1 ''100'' (Some 20640000000)) (task_intervals ! 1) 58) =
     Some ''Forbidden: bot was blocked by the user''"
    by (simp add: env_blocked_def)
  have b: "is_user_blocked_error ''Forbidden: bot was blocked by the user''"
    by code_simp
  have c: "map attempt_kind (attempts (check_notifications env_blocked world_two_tasks)) =
     [(''100'', Inl 1), (''100'', Inl 3), (''100'', Inr ''Fajr'')]"
    by code_simp
  have d: "logged (check_notifications env_blocked world_two_tasks) =
     [Checking 17160000000, UserMarkedBlocked ''100'', UserMarkedBlocked ''100'',
      PrayerFetched ''Toshkent'', UserMarkedBlocked ''100'']"
    by code_simp
  have e: "map blocked_bot (users (check_notifications env_blocked world_two_tasks)) = [True]"
    by code_simp
  from a b c d e show ?thesis by blast
qed

lemma no_attempt_to_blocked:
  assumes "\<forall>r\<in>set (users w). user_id r = uid \<longrightarrow> blocked_bot r"
  shows "\<not> (\<exists>x\<in>set (fresh (attempts w) (attempts (check_notifications env w))). fst x = uid)"
proof
  assume "\<exists>x\<in>set (fresh (attempts w) (attempts (check_notifications env w))). fst x = uid"
  then obtain x where x: "x \<in> set (fresh (attempts w) (attempts (check_notifications env w)))"
    and f: "fst x = uid" by blast
  have "sweep_inv env (active_ids w) w (check_notifications env w)"
    by (rule inv_check_notifications)
  with x have "fst x \<in> active_ids w"
    by (auto simp: sweep_inv_def attempts_ok_def)
  with f assms show False by (auto simp: active_ids_def)
qed

text \<open>
  C2, amended: when a delivery fails with an error classified as "blocked", the handler
  marks the user and, unless the marking itself raises, the loop over the thresholds goes
  on with the remaining ones (for tasks and for prayers alike); the loop over the tasks
  goes on with the remaining tasks, and the prayer check of the same loaded user follows
  whenever the task check returned. What the marking achieves is that later sweeps leave
  the user out: a sweep makes no delivery attempt to a user whose rows are all blocked
  when it starts.
\<close>

theorem unreachable_user_marked_not_stopped:
  "(should_send_task_notification t iv m \<and>
    bot_send env (ticks w) (user_id u) (TaskNotification t iv m) = Some e \<and>
    is_user_blocked_error e \<longrightarrow>
      task_intervals_loop env u m (iv # ivs) t n w =
        (case mark_user_as_blocked env (user_id u)
                ((tick w)\<lparr>attempts := attempts w @ [(user_id u, TaskNotification t iv m)]\<rparr>) of
           (Some e', w2) \<Rightarrow> (Some e', t, n, w2)
         | (None, w2) \<Rightarrow> task_intervals_loop env u m ivs t n w2)) \<and>
   (should_send_prayer_notification env u prayer iv m today w = (Inr True, w1) \<and>
    bot_send env (ticks w1) (user_id u) (PrayerReminder prayer pts iv region) = Some e \<and>
    is_user_blocked_error e \<longrightarrow>
      prayer_intervals_loop env u region prayer pts today m (iv # ivs) n w =
        (case mark_user_as_blocked env (user_id u)
                ((tick w1)\<lparr>attempts :=
                   attempts w1 @ [(user_id u, PrayerReminder prayer pts iv region)]\<rparr>) of
           (Some e', w2) \<Rightarrow> (Some e', n, w2)
         | (None, w2) \<Rightarrow> prayer_intervals_loop env u region prayer pts today m ivs n w2)) \<and>
   (due_date t = Some due \<and>
    task_intervals_loop env u (minutes_until due now) task_intervals t n w = (None, t', n', w') \<longrightarrow>
      tasks_loop env u now (t # ts) n w = tasks_loop env u now ts n' w') \<and>
   (check_task_notifications env u now w = (Inr task_n, w1) \<longrightarrow>
      users_loop env now (u # us) total_n w =
        users_loop env now us
          (total_n + task_n + fst (check_prayer_notifications env u now w1))
          (snd (check_prayer_notifications env u now w1))) \<and>
   ((\<forall>r\<in>set (users w). user_id r = uid \<longrightarrow> blocked_bot r) \<longrightarrow>
      \<not> (\<exists>x\<in>set (fresh (attempts w) (attempts (check_notifications env w))). fst x = uid))"
proof -
  have a: "should_send_task_notification t iv m \<and>
    bot_send env (ticks w) (user_id u) (TaskNotification t iv m) = Some e \<and>
    is_user_blocked_error e \<longrightarrow>
      task_intervals_loop env u m (iv # ivs) t n w =
        (case mark_user_as_blocked env (user_id u)
                ((tick w)\<lparr>attempts := attempts w @ [(user_id u, TaskNotification t iv m)]\<rparr>) of
           (Some e', w2) \<Rightarrow> (Some e', t, n, w2)
         | (None, w2) \<Rightarrow> task_intervals_loop env u m ivs t n w2)"
    by (auto simp: try_send_task_def send_message_def Let_def task_send_failed_def
        split: prod.splits option.splits)
  have b: "should_send_prayer_notification env u prayer iv m today w = (Inr True, w1) \<and>
    bot_send env (ticks w1) (user_id u) (PrayerReminder prayer pts iv region) = Some e \<and>
    is_user_blocked_error e \<longrightarrow>
      prayer_intervals_loop env u region prayer pts today m (iv # ivs) n w =
        (case mark_user_as_blocked env (user_id u)
                ((tick w1)\<lparr>attempts :=
                   attempts w1 @ [(user_id u, PrayerReminder prayer pts iv region)]\<rparr>) of
           (Some e', w2) \<Rightarrow> (Some e', n, w2)
         | (None, w2) \<Rightarrow> prayer_intervals_loop env u region prayer pts today m ivs n w2)"
    by (auto simp: try_send_prayer_def send_message_def Let_def prayer_send_failed_def
        split: prod.splits option.splits)
  have c: "due_date t = Some due \<and>
    task_intervals_loop env u (minutes_until due now) task_intervals t n w = (None, t', n', w') \<longrightarrow>
      tasks_loop env u now (t # ts) n w = tasks_loop env u now ts n' w'"
    by simp
  have d: "check_task_notifications env u now w = (Inr task_n, w1) \<longrightarrow>
      users_loop env now (u # us) total_n w =
        users_loop env now us
          (total_n + task_n + fst (check_prayer_notifications env u now w1))
          (snd (check_prayer_notifications env u now w1))"
    by (simp split: prod.splits)
  have f: "(\<forall>r\<in>set (users w). user_id r = uid \<longrightarrow> blocked_bot r) \<longrightarrow>
      \<not> (\<exists>x\<in>set (fresh (attempts w) (attempts (check_notifications env w))). fst x = uid)"
    using no_attempt_to_blocked by blast
  from a b c d f show ?thesis by blast
qed

text \<open>
  The amended C2 on the sample data: the refused delivery for task 1 ends in the marking,
  after which the loop returns normally; the next sweep attempts nothing.
\<close>

theorem unreachable_user_marked_not_stopped_witness:
  "should_send_task_notification (sample_task 1 ''100'' (Some 20640000000)) (task_intervals ! 1) 58 \<and>
   bot_send env_blocked (ticks world_two_tasks) (user_id (sample_user ''100''))
     (TaskNotification (sample_task 1 ''100'' (Some 20640000000)) (task_intervals ! 1) 58) =
     Some ''Forbidden: bot was blocked by the user'' \<and>
   is_user_blocked_error ''Forbidden: bot was blocked by the user'' \<and>
   task_intervals_loop env_blocked (sample_user ''100'') 58 [task_intervals ! 1]
     (sample_task 1 ''100'' (Some 20640000000)) 0 world_two_tasks =
     (case mark_user_as_blocked env_blocked ''100''
             ((tick world_two_tasks)\<lparr>attempts :=
                [(''100'', TaskNotification (sample_task 1 ''100'' (Some 20640000000))
                    (task_intervals ! 1) 58)]\<rparr>) of
        (Some e', w2) \<Rightarrow> (Some e', sample_task 1 ''100'' (Some 20640000000), 0, w2)
      | (None, w2) \<Rightarrow> (None, sample_task 1 ''100'' (Some 20640000000), 0, w2)) \<and>
   map blocked_bot (users (check_notifications env_blocked world_two_tasks)) = [True] \<and>
   fresh (attempts (check_notifications env_blocked world_two_tasks))
     (attempts (check_notifications env_blocked (check_notifications env_blocked world_two_tasks)))
     = []"
proof -
  have h: "should_send_task_notification (sample_task 1 ''100'' (Some 20640000000))
      (task_intervals ! 1) 58"
    "is_user_blocked_error ''Forbidden: bot was blocked by the user''"
    "map blocked_bot (users (check_notifications env_blocked world_two_tasks)) = [True]"
    "fresh (attempts (check_notifications env_blocked world_two_tasks))
     (attempts (check_notifications env_blocked (check_notifications env_blocked world_two_tasks)))
     = []"
    by code_simp+
  have g: "bot_send env_blocked (ticks world_two_tasks) (user_id (sample_user ''100''))
     (TaskNotification (sample_task 1 ''100'' (Some 20640000000)) (task_intervals ! 1) 58) =
     Some ''Forbidden: bot was blocked by the user''"
    "user_id (sample_user ''100'') = ''100''" "attempts world_two_tasks = []"
    by (simp_all add: env_blocked_def sample_user_def world_two_tasks_def world0_def)
  show ?thesis
    using h g
      unreachable_user_marked_not_stopped [where t = "sample_task 1 ''100'' (Some 20640000000)"
        and iv = "task_intervals ! 1" and m = 58 and env = env_blocked
        and w = world_two_tasks and u = "sample_user ''100''" and n = 0 and ivs = "[]"
        and e = "''Forbidden: bot was blocked by the user''"]
    by (simp split: prod.splits option.splits)
qed

section \<open>An exception in one user's task check\<close>

text \<open>
  C3, evaluated where it fails. With every call succeeding the sweep over the sample store
  sends two messages to each of the users 100 and 200. When the task query of user 100
  raises, the exception leaves \<open>check_task_notifications\<close>, ends the loop over the
  users and is logged by the sweep: user 200 is never processed and nothing is sent.
\<close>

theorem task_query_fault_aborts_sweep:
  "db_fault env_db_fault 1 = Some ''connection lost'' \<and>
   map attempt_kind (attempts (check_notifications env_ok world0)) =
     [(''100'', Inl 1), (''100'', Inr ''Fajr''), (''200'', Inl 2), (''200'', Inr ''Fajr'')] \<and>
   attempts (check_notifications env_db_fault world0) = [] \<and>
   logged (check_notifications env_db_fault world0) =
     [Checking 17160000000, CheckError ''connection lost'']"
proof -
  have a: "db_fault env_db_fault 1 = Some ''connection lost''"
    by (simp add: env_db_fault_def)
  have b: "map attempt_kind (attempts (check_notifications env_ok world0)) =
     [(''100'', Inl 1), (''100'', Inr ''Fajr''), (''200'', Inl 2), (''200'', Inr ''Fajr'')]"
    by code_simp
  have c: "attempts (check_notifications env_db_fault world0) = []"
    by code_simp
  have d: "logged (check_notifications env_db_fault world0) =
     [Checking 17160000000, CheckError ''connection lost'']"
    by code_simp
  from a b c d show ?thesis by blast
qed

end
